theory Spec2Isabelle
  imports Complex_Main "HOL-Library.Multiset"
begin

section \<open>Data model of the timecard history screen\<close>

text \<open>
  The screen \<^verbatim>\<open>src/screens/TimecardHistoryScreen.js\<close> works on an array of timecard
  objects (one per clock event).  The fields it reads are \<^verbatim>\<open>id\<close>, \<^verbatim>\<open>date\<close>,
  \<^verbatim>\<open>timestamp\<close>, \<^verbatim>\<open>type\<close>, \<^verbatim>\<open>job.name\<close>, \<^verbatim>\<open>task.name\<close> and \<^verbatim>\<open>status\<close>; \<^verbatim>\<open>job\<close> and
  \<^verbatim>\<open>task\<close> may be absent.  All of them are JavaScript strings.

  Conventions of the model:
  \<^item> JavaScript numbers that hold hours are idealised as \<^typ>\<open>real\<close> (exact arithmetic, no
    rounding, no NaN); time values in milliseconds are \<^typ>\<open>int\<close>.
  \<^item> \<^verbatim>\<open>new Date(s)\<close>, \<^verbatim>\<open>parseISO\<close>, \<^verbatim>\<open>startOfWeek\<close> etc. belong to the engine and to
    date-fns, not to this repository; they are parameters.  A parser returns \<open>None\<close> for
    an Invalid Date (time value NaN).
  \<^item> \<^verbatim>\<open>tc.date\<close> is used as a property name of a plain object; the model takes it to be
    an ordinary key (a \<^verbatim>\<open>yyyy-MM-dd\<close> string is one): not an array index and not a name
    inherited from \<^verbatim>\<open>Object.prototype\<close>, so that keys are enumerated in insertion order.
\<close>

record named =
  name :: string

record timecard =
  tc_id :: string
  date :: string
  timestamp :: string
  tc_type :: string
  job :: "named option"
  task :: "named option"
  status :: string

type_synonym parser = "string \<Rightarrow> int option"

section \<open>Grouping by date\<close>

text \<open>
  Both \<^verbatim>\<open>calculateSummary\<close> and \<^verbatim>\<open>getTimecardsByDate\<close> start with the same loop:
  \<^verbatim>\<open>
    const grouped = {};
    timecards.forEach(tc => {
      if (!grouped[tc.date]) { grouped[tc.date] = []; }
      grouped[tc.date].push(tc);
    });
  \<close>
  The object is an association list in insertion order; \<open>group_push\<close> is one iteration.
\<close>

fun group_push :: "(string \<times> timecard list) list \<Rightarrow> timecard \<Rightarrow> (string \<times> timecard list) list" where
  "group_push [] tc = [(date tc, [tc])]"
| "group_push ((k, v) # g) tc =
     (if k = date tc then (k, v @ [tc]) # g else (k, v) # group_push g tc)"

definition grouped :: "timecard list \<Rightarrow> (string \<times> timecard list) list" where
  "grouped tcs = foldl group_push [] tcs"

text \<open>\<^verbatim>\<open>Object.keys(grouped)\<close> and \<^verbatim>\<open>grouped[date]\<close> (only read at keys that are present).\<close>

definition keys :: "(string \<times> timecard list) list \<Rightarrow> string list" where
  "keys g = map fst g"

definition lookup :: "(string \<times> timecard list) list \<Rightarrow> string \<Rightarrow> timecard list" where
  "lookup g d = (case map_of g d of Some v \<Rightarrow> v | None \<Rightarrow> [])"

section \<open>Summary: daily hours and the overtime tiers\<close>

record summary =
  totalHours :: real
  regularHours :: real
  overtimeHours :: real
  doubleTimeHours :: real

definition zeroSummary :: summary where
  "zeroSummary = \<lparr>totalHours = 0, regularHours = 0, overtimeHours = 0, doubleTimeHours = 0\<rparr>"

text \<open>
  One iteration of the loop over the days in \<^verbatim>\<open>calculateSummary\<close> (lines 116-131), for a
  day whose hours are \<open>dayHours\<close>:
  \<^verbatim>\<open>
      totalHours += dayHours;
      if (dayHours > 12) { regularHours += 8; overtimeHours += 4; doubleTimeHours += dayHours - 12; }
      else if (dayHours > 8) { regularHours += 8; overtimeHours += dayHours - 8; }
      else { regularHours += dayHours; }
  \<close>
\<close>

definition addDay :: "summary \<Rightarrow> real \<Rightarrow> summary" where
  "addDay s dayHours =
     (let s1 = s\<lparr>totalHours := totalHours s + dayHours\<rparr> in
      if dayHours > 12 then
        s1\<lparr>regularHours := regularHours s1 + 8,
           overtimeHours := overtimeHours s1 + 4,
           doubleTimeHours := doubleTimeHours s1 + (dayHours - 12)\<rparr>
      else if dayHours > 8 then
        s1\<lparr>regularHours := regularHours s1 + 8,
           overtimeHours := overtimeHours s1 + (dayHours - 8)\<rparr>
      else
        s1\<lparr>regularHours := regularHours s1 + dayHours\<rparr>)"

text \<open>
  \<^verbatim>\<open>calculateSummary(timecards)\<close>.  \<^verbatim>\<open>TimeclockService.calculateDayHours\<close> is not part of
  the sources at hand: it is the parameter \<open>calculateDayHours\<close>.  Each day's array is
  passed in insertion order (it is not sorted here).  The value is what \<^verbatim>\<open>setSummary\<close>
  receives.
\<close>

definition calculateSummary :: "(timecard list \<Rightarrow> real) \<Rightarrow> timecard list \<Rightarrow> summary" where
  "calculateSummary calculateDayHours tcs =
     (let dailyHours = grouped tcs in
      foldl (\<lambda>s d. addDay s (calculateDayHours (lookup dailyHours d))) zeroSummary (keys dailyHours))"

text \<open>The breakdown of a single day of \<open>h\<close> hours: what the loop adds to a fresh summary.\<close>

definition classify :: "real \<Rightarrow> summary" where
  "classify h = addDay zeroSummary h"

section \<open>The day view\<close>

text \<open>
  \<^verbatim>\<open>Array.prototype.sort(comparefn)\<close>.  ECMAScript reads a NaN returned by the comparison
  function as \<open>+0\<close> and requires the sort to be stable; the model is the stable insertion
  sort (for a comparison function that is not a consistent order the standard leaves
  the result to the implementation, and the model is one such implementation).
\<close>

definition date_diff :: "parser \<Rightarrow> string \<Rightarrow> string \<Rightarrow> int" where
  \<comment> \<open>\<^verbatim>\<open>new Date(a) - new Date(b)\<close> as the sort reads it: NaN counts as 0\<close>
  "date_diff D a b = (case D a of None \<Rightarrow> 0 | Some x \<Rightarrow> (case D b of None \<Rightarrow> 0 | Some y \<Rightarrow> x - y))"

fun insert_by :: "('a \<Rightarrow> 'a \<Rightarrow> int) \<Rightarrow> 'a \<Rightarrow> 'a list \<Rightarrow> 'a list" where
  "insert_by cmp x [] = [x]"
| "insert_by cmp x (y # ys) = (if cmp x y \<le> 0 then x # y # ys else y # insert_by cmp x ys)"

definition js_sort :: "('a \<Rightarrow> 'a \<Rightarrow> int) \<Rightarrow> 'a list \<Rightarrow> 'a list" where
  "js_sort cmp xs = foldr (insert_by cmp) xs []"

record workday =
  wd_date :: string
  wd_timecards :: "timecard list"
  wd_totalHours :: real

record screen =
  timecards :: "timecard list"
  filteredTimecards :: "timecard list"
  searchQuery :: string
  selectedPeriod :: string
  summary :: summary

text \<open>The initial values of the state variables (lines 28-38).\<close>

definition initialScreen :: screen where
  "initialScreen =
     \<lparr>timecards = [], filteredTimecards = [], searchQuery = [], selectedPeriod = ''week'',
      summary = zeroSummary\<rparr>"

text \<open>
  \<^verbatim>\<open>getTimecardsByDate()\<close> (lines 194-211) reads the state variable
  \<^verbatim>\<open>filteredTimecards\<close>.  In the object literal, \<^verbatim>\<open>grouped[date].sort(...)\<close> sorts the day's
  array in place before \<^verbatim>\<open>calculateDayHours(grouped[date])\<close> is evaluated, so the hours
  are computed from the sorted array.
\<close>

definition getTimecardsByDate :: "parser \<Rightarrow> (timecard list \<Rightarrow> real) \<Rightarrow> screen \<Rightarrow> workday list" where
  "getTimecardsByDate D calculateDayHours st =
     (let g = grouped (filteredTimecards st);
          sortedDates = js_sort (\<lambda>a b. date_diff D b a) (keys g)
      in map (\<lambda>d.
           (let tcs = js_sort (\<lambda>a b. date_diff D (timestamp a) (timestamp b)) (lookup g d)
            in \<lparr>wd_date = d, wd_timecards = tcs, wd_totalHours = calculateDayHours tcs\<rparr>))
         sortedDates)"

section \<open>Filtering by period and search query\<close>

text \<open>The functions of date-fns that \<^verbatim>\<open>filterTimecards\<close> calls, on time values.\<close>

record datefns =
  parseISO :: parser
  startOfWeek :: "int \<Rightarrow> int"
  endOfWeek :: "int \<Rightarrow> int"
  startOfMonth :: "int \<Rightarrow> int"
  endOfMonth :: "int \<Rightarrow> int"

text \<open>
  \<^verbatim>\<open>String.prototype.toLowerCase\<close> on the ASCII letters (a \<^typ>\<open>string\<close> is a list of
  8-bit characters; other characters are left as they are) and
  \<^verbatim>\<open>String.prototype.includes\<close>.
\<close>

definition lower_char :: "char \<Rightarrow> char" where
  "lower_char c =
     (case map_of (zip ''ABCDEFGHIJKLMNOPQRSTUVWXYZ'' ''abcdefghijklmnopqrstuvwxyz'') c of
        None \<Rightarrow> c
      | Some l \<Rightarrow> l)"

definition toLowerCase :: "string \<Rightarrow> string" where
  "toLowerCase s = map lower_char s"

fun includes_str :: "string \<Rightarrow> string \<Rightarrow> bool" where
  "includes_str [] q = (q = [])"
| "includes_str (c # cs) q = (take (length q) (c # cs) = q \<or> includes_str cs q)"

text \<open>
  The \<^verbatim>\<open>switch (selectedPeriod)\<close>: the bounds for \<^verbatim>\<open>'week'\<close> and \<^verbatim>\<open>'month'\<close>; for
  \<^verbatim>\<open>'all'\<close> both are \<^verbatim>\<open>null\<close>, for any other value both stay \<^verbatim>\<open>undefined\<close>, and the
  test \<^verbatim>\<open>startDate && endDate\<close> fails (\<open>None\<close>).
\<close>

definition periodBounds :: "datefns \<Rightarrow> string \<Rightarrow> int \<Rightarrow> (int \<times> int) option" where
  "periodBounds L p now =
     (if p = ''week'' then Some (startOfWeek L now, endOfWeek L now)
      else if p = ''month'' then Some (startOfMonth L now, endOfMonth L now)
      else None)"

definition inPeriod :: "datefns \<Rightarrow> int \<Rightarrow> int \<Rightarrow> timecard \<Rightarrow> bool" where
  \<comment> \<open>\<^verbatim>\<open>tcDate >= startDate && tcDate <= endDate\<close>; both are false for an Invalid Date\<close>
  "inPeriod L startDate endDate tc =
     (case parseISO L (date tc) of None \<Rightarrow> False | Some tcDate \<Rightarrow> tcDate \<ge> startDate \<and> tcDate \<le> endDate)"

definition matchesQuery :: "string \<Rightarrow> timecard \<Rightarrow> bool" where
  "matchesQuery q tc =
     ((case job tc of None \<Rightarrow> False | Some j \<Rightarrow> includes_str (toLowerCase (name j)) (toLowerCase q)) \<or>
      (case task tc of None \<Rightarrow> False | Some t \<Rightarrow> includes_str (toLowerCase (name t)) (toLowerCase q)) \<or>
      includes_str (toLowerCase (tc_type tc)) (toLowerCase q))"

text \<open>
  \<^verbatim>\<open>filterTimecards()\<close> (lines 59-99) with \<^verbatim>\<open>now = new Date()\<close> as a parameter; it ends
  with \<^verbatim>\<open>setFilteredTimecards(filtered); calculateSummary(filtered)\<close>.
\<close>

definition filterTimecards :: "datefns \<Rightarrow> (timecard list \<Rightarrow> real) \<Rightarrow> int \<Rightarrow> screen \<Rightarrow> screen" where
  "filterTimecards L calculateDayHours now st =
     (let filtered = timecards st;
          filtered = (case periodBounds L (selectedPeriod st) now of
                        None \<Rightarrow> filtered
                      | Some (startDate, endDate) \<Rightarrow> filter (inPeriod L startDate endDate) filtered);
          filtered = (if searchQuery st \<noteq> [] then filter (matchesQuery (searchQuery st)) filtered
                      else filtered)
      in st\<lparr>filteredTimecards := filtered, summary := calculateSummary calculateDayHours filtered\<rparr>)"

section \<open>Status chip and submission\<close>

datatype chip = Approved | PendingApproval | Draft

definition getStatusChip :: "timecard list \<Rightarrow> chip" where
  "getStatusChip tcs =
     (let hasSubmitted = list_ex (\<lambda>tc. status tc = ''submitted'') tcs;
          hasApproved = list_ex (\<lambda>tc. status tc = ''approved'') tcs
      in if hasApproved then Approved else if hasSubmitted then PendingApproval else Draft)"

text \<open>The \<^verbatim>\<open>disabled\<close> property of a day's Submit button (line 329).\<close>

definition submitDisabled :: "timecard list \<Rightarrow> bool" where
  "submitDisabled tcs = list_ex (\<lambda>tc. status tc = ''submitted'' \<or> status tc = ''approved'') tcs"

text \<open>
  The \<^verbatim>\<open>Submit\<close> branch of \<^verbatim>\<open>submitForApproval(date)\<close> (lines 180-188).  The service call
  either resolves (with the stored timecards changed) or throws an error object, whose
  \<^verbatim>\<open>message\<close> may be empty; \<^verbatim>\<open>loadTimecards\<close> then copies the store into the screen.
  The result is the new store, the new screen and the alert that is shown.
\<close>

record js_error =
  message :: string

datatype alert = Alert string string

definition submitForApproval ::
  "(string \<Rightarrow> timecard list \<Rightarrow> js_error + timecard list) \<Rightarrow> string \<Rightarrow> timecard list \<times> screen
     \<Rightarrow> timecard list \<times> screen \<times> alert" where
  "submitForApproval service d w =
     (case service d (fst w) of
        Inr store' \<Rightarrow>
          (store', (snd w)\<lparr>timecards := store'\<rparr>, Alert ''Success'' ''Timecard submitted for approval'')
      | Inl error \<Rightarrow>
          (fst w, snd w,
           Alert ''Error'' (if message error \<noteq> [] then message error else ''Failed to submit for approval'')))"

section \<open>The service functions, from the specification\<close>

text \<open>
  Modelled from the spec: \<^verbatim>\<open>TimeclockService.calculateDayHours\<close> (the Hours Calculator,
  section 4.2) is missing from the sources.  The specification: scan the day's events in
  the given (timestamp) order with a "currently clocked in" flag and a "currently on
  lunch" flag; accumulate the time elapsed between a \<^verbatim>\<open>clock_in\<close>/\<^verbatim>\<open>lunch_in\<close> (resume)
  and the next \<^verbatim>\<open>lunch_out\<close>/\<^verbatim>\<open>clock_out\<close> (pause/stop).  A \<^verbatim>\<open>clock_out\<close> with no
  preceding \<^verbatim>\<open>clock_in\<close> is ignored; a span that is never closed adds nothing; a
  \<^verbatim>\<open>lunch_out\<close> without \<^verbatim>\<open>lunch_in\<close> before the next \<^verbatim>\<open>clock_out\<close> freezes the accrual
  at the lunch boundary; several pairs are summed.  Where the specification is silent
  the event is ignored (a second \<^verbatim>\<open>clock_in\<close> while clocked in, a lunch event while
  clocked out, an event of another kind or with an invalid timestamp).
  \<open>since\<close> is the time of the last resume, \<open>worked\<close> the milliseconds accrued so far.
\<close>

record clock =
  clockedIn :: bool
  onLunch :: bool
  since :: int
  worked :: int

definition clock0 :: clock where
  "clock0 = \<lparr>clockedIn = False, onLunch = False, since = 0, worked = 0\<rparr>"

definition hours_step :: "parser \<Rightarrow> clock \<Rightarrow> timecard \<Rightarrow> clock" where
  "hours_step D c tc =
     (case D (timestamp tc) of
        None \<Rightarrow> c
      | Some t \<Rightarrow>
          if tc_type tc = ''clock_in'' then
            (if clockedIn c then c else c\<lparr>clockedIn := True, onLunch := False, since := t\<rparr>)
          else if tc_type tc = ''lunch_out'' then
            (if clockedIn c \<and> \<not> onLunch c
             then c\<lparr>onLunch := True, worked := worked c + (t - since c)\<rparr> else c)
          else if tc_type tc = ''lunch_in'' then
            (if clockedIn c \<and> onLunch c then c\<lparr>onLunch := False, since := t\<rparr> else c)
          else if tc_type tc = ''clock_out'' then
            (if clockedIn c
             then c\<lparr>clockedIn := False, onLunch := False,
                    worked := worked c + (if onLunch c then 0 else t - since c)\<rparr>
             else c)
          else c)"

definition calculateDayHours :: "parser \<Rightarrow> timecard list \<Rightarrow> real" where
  "calculateDayHours D tcs = real_of_int (worked (foldl (hours_step D) clock0 tcs)) / 3600000"

text \<open>
  Modelled from the spec: \<^verbatim>\<open>TimeclockService.submitForApproval\<close> (sections 4.6, 6 and 7) is
  missing from the sources.  The specification: \<^verbatim>\<open>submitForApproval(date) -> success |
  failure(reason)\<close>; submission is only permitted when no event on that date already has
  status \<^verbatim>\<open>submitted\<close> or \<^verbatim>\<open>approved\<close>; the failure ("already submitted") is a reported
  error; a successful submission moves the day's events from \<^verbatim>\<open>draft\<close> to \<^verbatim>\<open>submitted\<close>,
  as new records.
\<close>

definition alreadySubmitted :: js_error where
  "alreadySubmitted = \<lparr>message = ''already submitted''\<rparr>"

definition service_submitForApproval :: "string \<Rightarrow> timecard list \<Rightarrow> js_error + timecard list" where
  "service_submitForApproval d store =
     (if list_ex (\<lambda>tc. date tc = d \<and> (status tc = ''submitted'' \<or> status tc = ''approved'')) store
      then Inl alreadySubmitted
      else Inr (map (\<lambda>tc. if date tc = d then tc\<lparr>status := ''submitted''\<rparr> else tc) store))"

section \<open>A work-day in the words of the specification\<close>










section \<open>The period filter in the words of the specification\<close>

text \<open>
  "Contains the query as a case-insensitive substring", and "retain only events whose
  job name, task name, or event-kind label contains the query ...; an empty query
  matches everything".
\<close>

definition contains_ci :: "string \<Rightarrow> string \<Rightarrow> bool" where
  "contains_ci field q = (\<exists>pre suf. toLowerCase field = pre @ toLowerCase q @ suf)"

definition query_retains :: "string \<Rightarrow> timecard \<Rightarrow> bool" where
  "query_retains q tc =
     (q = [] \<or> (\<exists>j. job tc = Some j \<and> contains_ci (name j) q)
             \<or> (\<exists>t. task tc = Some t \<and> contains_ci (name t) q)
             \<or> contains_ci (tc_type tc) q)"

text \<open>"Filtering by window uses the event's attributed date and is a closed interval."\<close>

definition date_within :: "datefns \<Rightarrow> int \<Rightarrow> int \<Rightarrow> timecard \<Rightarrow> bool" where
  "date_within L lo hi tc = (\<exists>t. parseISO L (date tc) = Some t \<and> lo \<le> t \<and> t \<le> hi)"

section \<open>Sample data\<close>

text \<open>
  The time values of the date strings used in the examples, as \<^verbatim>\<open>new Date(s).getTime()\<close>
  gives them (UTC), and date-fns on a device in the UTC zone: weeks start on Sunday;
  the month bounds are those of January 2024, where all the sample instants lie.
\<close>

definition utcDate :: parser where
  "utcDate = map_of
     [(''2024-01-13'', 1705104000000),
      (''2024-01-14'', 1705190400000),
      (''2024-01-15'', 1705276800000),
      (''2024-01-16'', 1705363200000),
      (''2024-01-20'', 1705708800000),
      (''2024-01-21'', 1705795200000),
      (''2024-01-15T06:00:00Z'', 1705298400000),
      (''2024-01-15T08:00:00Z'', 1705305600000),
      (''2024-01-15T09:00:00Z'', 1705309200000),
      (''2024-01-15T12:00:00Z'', 1705320000000),
      (''2024-01-15T12:30:00Z'', 1705321800000),
      (''2024-01-15T16:30:00Z'', 1705336200000),
      (''2024-01-15T17:00:00Z'', 1705338000000),
      (''2024-01-16T06:00:00Z'', 1705384800000),
      (''2024-01-16T19:00:00Z'', 1705431600000)]"

definition utcFns :: datefns where
  "utcFns =
     \<lparr>parseISO = utcDate,
      startOfWeek = (\<lambda>now. now - now mod 86400000 - ((now div 86400000 + 4) mod 7) * 86400000),
      endOfWeek = (\<lambda>now. now - now mod 86400000 - ((now div 86400000 + 4) mod 7) * 86400000
                           + 7 * 86400000 - 1),
      startOfMonth = (\<lambda>now. 1704067200000),
      endOfMonth = (\<lambda>now. 1706745599999)\<rparr>"

definition ev :: "string \<Rightarrow> string \<Rightarrow> string \<Rightarrow> string \<Rightarrow> timecard" where
  \<comment> \<open>a draft event without job and task\<close>
  "ev i d ts k =
     \<lparr>tc_id = i, date = d, timestamp = ts, tc_type = k, job = None, task = None, status = ''draft''\<rparr>"

text \<open>
  A Monday of 9 hours and a Tuesday of 13 hours (in this order in the store), and a day
  of 8 hours with a half-hour lunch.
\<close>

definition twoDays :: "timecard list" where
  "twoDays =
     [ev ''1'' ''2024-01-15'' ''2024-01-15T08:00:00Z'' ''clock_in'',
      ev ''2'' ''2024-01-15'' ''2024-01-15T17:00:00Z'' ''clock_out'',
      ev ''3'' ''2024-01-16'' ''2024-01-16T06:00:00Z'' ''clock_in'',
      ev ''4'' ''2024-01-16'' ''2024-01-16T19:00:00Z'' ''clock_out'']"




text \<open>The events of \<open>twoDays\<close> in another order of arrival.\<close>

definition shuffledDays :: "timecard list" where
  "shuffledDays =
     [ev ''2'' ''2024-01-15'' ''2024-01-15T17:00:00Z'' ''clock_out'',
      ev ''4'' ''2024-01-16'' ''2024-01-16T19:00:00Z'' ''clock_out'',
      ev ''1'' ''2024-01-15'' ''2024-01-15T08:00:00Z'' ''clock_in'',
      ev ''3'' ''2024-01-16'' ''2024-01-16T06:00:00Z'' ''clock_in'']"

text \<open>
  A day whose \<^verbatim>\<open>lunch_out\<close> and \<^verbatim>\<open>lunch_in\<close> carry the same timestamp, in two orders of
  arrival.
\<close>

definition tieDay :: "timecard list" where
  "tieDay =
     [ev ''1'' ''2024-01-15'' ''2024-01-15T08:00:00Z'' ''clock_in'',
      ev ''2'' ''2024-01-15'' ''2024-01-15T12:00:00Z'' ''lunch_out'',
      ev ''3'' ''2024-01-15'' ''2024-01-15T12:00:00Z'' ''lunch_in'',
      ev ''4'' ''2024-01-15'' ''2024-01-15T17:00:00Z'' ''clock_out'']"

definition tieDaySwapped :: "timecard list" where
  "tieDaySwapped =
     [ev ''1'' ''2024-01-15'' ''2024-01-15T08:00:00Z'' ''clock_in'',
      ev ''3'' ''2024-01-15'' ''2024-01-15T12:00:00Z'' ''lunch_in'',
      ev ''2'' ''2024-01-15'' ''2024-01-15T12:00:00Z'' ''lunch_out'',
      ev ''4'' ''2024-01-15'' ''2024-01-15T17:00:00Z'' ''clock_out'']"

text \<open>
  A store for the period filter, looked at on Wednesday 2024-01-17 at 10:30 UTC: the
  week runs from Sunday 2024-01-14 to Saturday 2024-01-20.
\<close>

definition sampleNow :: int where
  "sampleNow = 1705487400000"

definition weekStore :: "timecard list" where
  "weekStore =
     [ev ''1'' ''2024-01-13'' ''2024-01-13T08:00:00Z'' ''clock_in'',
      ev ''2'' ''2024-01-14'' ''2024-01-14T08:00:00Z'' ''clock_in'',
      (ev ''3'' ''2024-01-15'' ''2024-01-15T12:00:00Z'' ''lunch_out'')\<lparr>job := Some \<lparr>name = ''Clock Tower''\<rparr>\<rparr>,
      ev ''4'' ''2024-01-15'' ''2024-01-15T12:30:00Z'' ''lunch_in'',
      (ev ''5'' ''2024-01-16'' ''2024-01-16T12:30:00Z'' ''lunch_in'')\<lparr>task := Some \<lparr>name = ''Wind the clocks''\<rparr>\<rparr>,
      ev ''6'' ''2024-01-20'' ''2024-01-21T01:00:00Z'' ''clock_out'',
      ev ''7'' ''2024-01-21'' ''2024-01-20T23:00:00Z'' ''clock_out'']"

text \<open>
  A day that was approved and then got one more (draft) event, and the screen showing
  the two days of \<open>twoDays\<close> unfiltered.
\<close>

definition reopenedDay :: "timecard list" where
  "reopenedDay =
     [(ev ''1'' ''2024-01-15'' ''2024-01-15T08:00:00Z'' ''clock_in'')\<lparr>status := ''approved''\<rparr>,
      (ev ''2'' ''2024-01-15'' ''2024-01-15T12:00:00Z'' ''clock_out'')\<lparr>status := ''approved''\<rparr>,
      ev ''3'' ''2024-01-15'' ''2024-01-15T12:30:00Z'' ''lunch_in'']"

definition twoDaysScreen :: screen where
  "twoDaysScreen = initialScreen\<lparr>timecards := twoDays, filteredTimecards := twoDays\<rparr>"

text \<open>
  The screen holding the Monday of \<open>twoDays\<close> with no period bound, without and with the
  search query \<^verbatim>\<open>clock_in\<close>.
\<close>

definition mondayScreen :: screen where
  "mondayScreen = initialScreen\<lparr>timecards := take 2 twoDays, selectedPeriod := ''all''\<rparr>"

definition mondayQueryScreen :: screen where
  "mondayQueryScreen = mondayScreen\<lparr>searchQuery := ''clock_in''\<rparr>"

section \<open>Lemmas on grouping and sorting\<close>

lemma lookup_group_push:
  "lookup (group_push g tc) d = (if d = date tc then lookup g d @ [tc] else lookup g d)"
  by (induction g tc rule: group_push.induct) (auto simp: lookup_def)

lemma keys_group_push:
  "keys (group_push g tc) = (if date tc \<in> set (keys g) then keys g else keys g @ [date tc])"
  by (induction g tc rule: group_push.induct) (auto simp: keys_def)

lemma grouped_Nil: "grouped [] = []" by (simp add: grouped_def)

lemma grouped_snoc: "grouped (tcs @ [tc]) = group_push (grouped tcs) tc"
  by (simp add: grouped_def)

lemma lookup_Nil: "lookup [] d = []" by (simp add: lookup_def)

lemma keys_Nil: "keys [] = []" by (simp add: keys_def)

lemma lookup_grouped: "lookup (grouped tcs) d = filter (\<lambda>tc. date tc = d) tcs"
  by (induction tcs rule: rev_induct) (auto simp: grouped_Nil lookup_Nil grouped_snoc lookup_group_push)

lemma set_keys_grouped: "set (keys (grouped tcs)) = date ` set tcs"
  by (induction tcs rule: rev_induct) (auto simp: grouped_Nil keys_Nil grouped_snoc keys_group_push)

lemma distinct_keys_grouped: "distinct (keys (grouped tcs))"
  by (induction tcs rule: rev_induct) (simp_all add: grouped_Nil keys_Nil grouped_snoc keys_group_push)

lemma mset_insert_by: "mset (insert_by cmp x xs) = add_mset x (mset xs)"
  by (induction xs) auto

lemma mset_js_sort: "mset (js_sort cmp xs) = mset xs"
  by (induction xs) (auto simp: js_sort_def mset_insert_by)

lemma set_js_sort: "set (js_sort cmp xs) = set xs"
  by (metis mset_js_sort set_mset_mset)

lemma insert_by_insort_key:
  "\<forall>y\<in>set ys. (cmp x y \<le> 0) = (f x \<le> f y) \<Longrightarrow> insert_by cmp x ys = insort_key f x ys"
  by (induction ys) auto

lemma js_sort_sort_key:
  fixes f :: "'a \<Rightarrow> int"
  shows "\<forall>x\<in>set xs. \<forall>y\<in>set xs. (cmp x y \<le> 0) = (f x \<le> f y) \<Longrightarrow> js_sort cmp xs = sort_key f xs"
proof (induction xs)
  case Nil
  then show ?case by (simp add: js_sort_def)
next
  case (Cons a xs)
  then have IH: "js_sort cmp xs = sort_key f xs" by simp
  have "insert_by cmp a (sort_key f xs) = insort_key f a (sort_key f xs)"
    by (rule insert_by_insort_key) (use Cons.prems in simp)
  with IH show ?case by (simp add: js_sort_def)
qed

lemma sum_list_no_key:
  "k \<notin> set ks \<Longrightarrow> (\<Sum>d\<leftarrow>ks. if k = d then {#x#} else {#}) = {#}"
  by (induction ks) auto

lemma sum_list_single_key:
  "distinct ks \<Longrightarrow> k \<in> set ks \<Longrightarrow> (\<Sum>d\<leftarrow>ks. if k = d then {#x#} else {#}) = {#x#}"
  by (induction ks) (auto simp: sum_list_no_key)

lemma mset_concat_groups:
  "distinct ks \<Longrightarrow> date ` set tcs \<subseteq> set ks \<Longrightarrow>
     (\<Sum>d\<leftarrow>ks. mset (filter (\<lambda>tc. date tc = d) tcs)) = mset tcs"
proof (induction tcs)
  case Nil
  then show ?case by simp
next
  case (Cons a tcs)
  have "(\<Sum>d\<leftarrow>ks. mset (filter (\<lambda>tc. date tc = d) (a # tcs)))
      = (\<Sum>d\<leftarrow>ks. (if date a = d then {#a#} else {#}) + mset (filter (\<lambda>tc. date tc = d) tcs))"
    by (rule arg_cong [where f = sum_list]) auto
  also have "\<dots> = (\<Sum>d\<leftarrow>ks. if date a = d then {#a#} else {#}) + (\<Sum>d\<leftarrow>ks. mset (filter (\<lambda>tc. date tc = d) tcs))"
    by (simp add: sum_list_addf)
  also have "\<dots> = {#a#} + mset tcs"
    using Cons by (simp add: sum_list_single_key)
  finally show ?case by simp
qed

section \<open>The overtime tiers\<close>

lemma addDay_sel:
  "totalHours (addDay s h) = totalHours s + h"
  "regularHours (addDay s h) = regularHours s + (if h > 8 then 8 else h)"
  "overtimeHours (addDay s h) = overtimeHours s + (if h > 12 then 4 else if h > 8 then h - 8 else 0)"
  "doubleTimeHours (addDay s h) = doubleTimeHours s + (if h > 12 then h - 12 else 0)"
  by (simp_all add: addDay_def Let_def)

lemma foldl_addDay_balanced:
  "totalHours s = regularHours s + overtimeHours s + doubleTimeHours s \<Longrightarrow>
   totalHours (foldl (\<lambda>s d. addDay s (f d)) s ks)
     = regularHours (foldl (\<lambda>s d. addDay s (f d)) s ks)
     + overtimeHours (foldl (\<lambda>s d. addDay s (f d)) s ks)
     + doubleTimeHours (foldl (\<lambda>s d. addDay s (f d)) s ks)"
  by (induction ks arbitrary: s) (simp_all add: addDay_sel)

text \<open>
  Claim C1.  For a day of \<open>h \<ge> 0\<close> hours the classifier yields: all of \<open>h\<close> regular when
  \<open>h \<le> 8\<close>; 8 regular and \<open>h - 8\<close> overtime when \<open>8 < h \<le> 12\<close>; 8 regular, 4 overtime and
  \<open>h - 12\<close> double time when \<open>h > 12\<close>.  The boundaries 8 and 12 fall in the lower tier:
  \<open>classify 8 = {8,0,0}\<close> and \<open>classify 12 = {8,4,0}\<close>.  The loop of \<^verbatim>\<open>calculateSummary\<close>
  adds exactly this breakdown to the running totals.
\<close>

theorem C1_classify_tiers:
  assumes "0 \<le> h"
  shows "(h \<le> 8 \<longrightarrow> classify h = \<lparr>totalHours = h, regularHours = h, overtimeHours = 0, doubleTimeHours = 0\<rparr>)
       \<and> (8 < h \<and> h \<le> 12 \<longrightarrow> classify h = \<lparr>totalHours = h, regularHours = 8, overtimeHours = h - 8, doubleTimeHours = 0\<rparr>)
       \<and> (12 < h \<longrightarrow> classify h = \<lparr>totalHours = h, regularHours = 8, overtimeHours = 4, doubleTimeHours = h - 12\<rparr>)
       \<and> classify 8 = \<lparr>totalHours = 8, regularHours = 8, overtimeHours = 0, doubleTimeHours = 0\<rparr>
       \<and> classify 12 = \<lparr>totalHours = 12, regularHours = 8, overtimeHours = 4, doubleTimeHours = 0\<rparr>
       \<and> regularHours (addDay s h) = regularHours s + regularHours (classify h)
       \<and> overtimeHours (addDay s h) = overtimeHours s + overtimeHours (classify h)
       \<and> doubleTimeHours (addDay s h) = doubleTimeHours s + doubleTimeHours (classify h)"
  by (simp add: classify_def addDay_def zeroSummary_def Let_def)

theorem C1_classify_tiers_witness:
  "classify 10 = \<lparr>totalHours = 10, regularHours = 8, overtimeHours = 2, doubleTimeHours = 0\<rparr>
   \<and> classify 13 = \<lparr>totalHours = 13, regularHours = 8, overtimeHours = 4, doubleTimeHours = 1\<rparr>
   \<and> classify 0 = \<lparr>totalHours = 0, regularHours = 0, overtimeHours = 0, doubleTimeHours = 0\<rparr>"
  using C1_classify_tiers [of 10] C1_classify_tiers [of 13] C1_classify_tiers [of 0] by simp

text \<open>
  Claim C2.  For every \<open>h \<ge> 0\<close> the three buckets of \<open>classify h\<close> add up to \<open>h\<close> (exactly
  in the model's real arithmetic, hence within \<open>1e-9\<close>), and the summary computed from
  any event collection has \<open>totalHours = regularHours + overtimeHours + doubleTimeHours\<close>,
  whatever the hours calculator returns for the days.
\<close>

theorem C2_buckets_partition_total:
  "(0 \<le> h \<longrightarrow>
      regularHours (classify h) + overtimeHours (classify h) + doubleTimeHours (classify h) = h
    \<and> \<bar>regularHours (classify h) + overtimeHours (classify h) + doubleTimeHours (classify h) - h\<bar>
        \<le> 1 / 10 ^ 9)
   \<and> totalHours (calculateSummary cdh tcs)
       = regularHours (calculateSummary cdh tcs) + overtimeHours (calculateSummary cdh tcs)
         + doubleTimeHours (calculateSummary cdh tcs)"
proof -
  have "totalHours zeroSummary = regularHours zeroSummary + overtimeHours zeroSummary + doubleTimeHours zeroSummary"
    by (simp add: zeroSummary_def)
  then have "totalHours (calculateSummary cdh tcs)
       = regularHours (calculateSummary cdh tcs) + overtimeHours (calculateSummary cdh tcs)
         + doubleTimeHours (calculateSummary cdh tcs)"
    unfolding calculateSummary_def Let_def by (rule foldl_addDay_balanced)
  moreover have "regularHours (classify h) + overtimeHours (classify h) + doubleTimeHours (classify h) = h"
    by (simp add: classify_def addDay_sel zeroSummary_def)
  ultimately show ?thesis by simp
qed

theorem C2_buckets_partition_total_witness:
  "(0::real) \<le> 13
   \<and> regularHours (classify 13) + overtimeHours (classify 13) + doubleTimeHours (classify 13) = 13
   \<and> totalHours (calculateSummary (calculateDayHours utcDate) twoDays) = 22
   \<and> regularHours (calculateSummary (calculateDayHours utcDate) twoDays)
      + overtimeHours (calculateSummary (calculateDayHours utcDate) twoDays)
      + doubleTimeHours (calculateSummary (calculateDayHours utcDate) twoDays) = 22"
proof -
  have t: "totalHours (calculateSummary (calculateDayHours utcDate) twoDays) = 22"
    by (simp add: calculateSummary_def twoDays_def grouped_def keys_def lookup_def ev_def
        calculateDayHours_def hours_step_def clock0_def utcDate_def addDay_sel zeroSummary_def)
  show ?thesis
    using C2_buckets_partition_total [of 13 "calculateDayHours utcDate" twoDays] t by simp
qed

text \<open>
  Claim C8.  The status shown for a day is approved if any of its events has status
  \<^verbatim>\<open>approved\<close>, else submitted (chip "Pending Approval") if any has status \<^verbatim>\<open>submitted\<close>,
  else draft; a day with one submitted and one approved event shows approved.
\<close>

theorem C8_status_precedence:
  "getStatusChip tcs =
     (if \<exists>tc\<in>set tcs. status tc = ''approved'' then Approved
      else if \<exists>tc\<in>set tcs. status tc = ''submitted'' then PendingApproval
      else Draft)
   \<and> (status a = ''submitted'' \<and> status b = ''approved''
        \<longrightarrow> getStatusChip [a, b] = Approved \<and> getStatusChip [b, a] = Approved)"
  by (simp add: getStatusChip_def Let_def list_ex_iff)

theorem C8_status_precedence_witness:
  "getStatusChip [(ev ''1'' ''2024-01-15'' ''2024-01-15T08:00:00Z'' ''clock_in'')\<lparr>status := ''submitted''\<rparr>,
                  (ev ''2'' ''2024-01-15'' ''2024-01-15T17:00:00Z'' ''clock_out'')\<lparr>status := ''approved''\<rparr>]
     = Approved
   \<and> getStatusChip [ev ''1'' ''2024-01-15'' ''2024-01-15T08:00:00Z'' ''clock_in''] = Draft"
  using C8_status_precedence
     [of "[ev ''1'' ''2024-01-15'' ''2024-01-15T08:00:00Z'' ''clock_in'']"
         "(ev ''1'' ''2024-01-15'' ''2024-01-15T08:00:00Z'' ''clock_in'')\<lparr>status := ''submitted''\<rparr>"
         "(ev ''2'' ''2024-01-15'' ''2024-01-15T17:00:00Z'' ''clock_out'')\<lparr>status := ''approved''\<rparr>"]
  by (simp add: ev_def)

section \<open>The hours calculator\<close>
















section \<open>The summary as a sum over the days\<close>

lemma foldl_addDay_sums:
  "totalHours (foldl (\<lambda>s d. addDay s (f d)) s ks) = totalHours s + (\<Sum>d\<leftarrow>ks. f d)"
  "regularHours (foldl (\<lambda>s d. addDay s (f d)) s ks)
     = regularHours s + (\<Sum>d\<leftarrow>ks. regularHours (classify (f d)))"
  "overtimeHours (foldl (\<lambda>s d. addDay s (f d)) s ks)
     = overtimeHours s + (\<Sum>d\<leftarrow>ks. overtimeHours (classify (f d)))"
  "doubleTimeHours (foldl (\<lambda>s d. addDay s (f d)) s ks)
     = doubleTimeHours s + (\<Sum>d\<leftarrow>ks. doubleTimeHours (classify (f d)))"
  by (induction ks arbitrary: s) (simp_all add: addDay_sel classify_def zeroSummary_def)

lemma sum_list_keys_grouped:
  fixes g :: "string \<Rightarrow> real"
  shows "(\<Sum>d\<leftarrow>keys (grouped tcs). g d) = (\<Sum>d\<in>date ` set tcs. g d)"
  using sum_list_distinct_conv_sum_set [OF distinct_keys_grouped, of g tcs]
  by (simp add: set_keys_grouped)

lemma calculateSummary_sums:
  "totalHours (calculateSummary cdh tcs)
     = (\<Sum>d\<in>date ` set tcs. cdh (filter (\<lambda>tc. date tc = d) tcs))"
  "regularHours (calculateSummary cdh tcs)
     = (\<Sum>d\<in>date ` set tcs. regularHours (classify (cdh (filter (\<lambda>tc. date tc = d) tcs))))"
  "overtimeHours (calculateSummary cdh tcs)
     = (\<Sum>d\<in>date ` set tcs. overtimeHours (classify (cdh (filter (\<lambda>tc. date tc = d) tcs))))"
  "doubleTimeHours (calculateSummary cdh tcs)
     = (\<Sum>d\<in>date ` set tcs. doubleTimeHours (classify (cdh (filter (\<lambda>tc. date tc = d) tcs))))"
  by (simp_all add: calculateSummary_def Let_def foldl_addDay_sums lookup_grouped zeroSummary_def
      sum_list_keys_grouped)

lemma same_days_same_dates:
  assumes "\<forall>d. filter (\<lambda>tc. date tc = d) tcs' = filter (\<lambda>tc. date tc = d) tcs"
  shows "date ` set tcs' = date ` set tcs"
proof -
  have *: "(d \<in> date ` set xs) = (filter (\<lambda>tc. date tc = d) xs \<noteq> [])" for d xs
    by (auto simp: filter_empty_conv)
  have "(d \<in> date ` set tcs') = (d \<in> date ` set tcs)" for d
  proof -
    have "(d \<in> date ` set tcs') = (filter (\<lambda>tc. date tc = d) tcs' \<noteq> [])" by (rule *)
    also have "\<dots> = (filter (\<lambda>tc. date tc = d) tcs \<noteq> [])" using assms by simp
    also have "\<dots> = (d \<in> date ` set tcs)" by (rule * [symmetric])
    finally show ?thesis .
  qed
  then show ?thesis by blast
qed

section \<open>The day view: grouping, order, permutation\<close>

lemma date_diff_valid: "D a = Some x \<Longrightarrow> D b = Some y \<Longrightarrow> date_diff D a b = x - y"
  by (simp add: date_diff_def)

lemma js_sort_dates_desc:
  assumes "\<forall>d\<in>set ks. D d \<noteq> None"
  shows "js_sort (\<lambda>a b. date_diff D b a) ks = sort_key (\<lambda>d. - the (D d)) ks"
proof (rule js_sort_sort_key, intro ballI)
  fix x y assume "x \<in> set ks" "y \<in> set ks"
  with assms obtain u v where "D x = Some u" "D y = Some v" by blast
  then show "(date_diff D y x \<le> 0) = (- the (D x) \<le> - the (D y))"
    by (simp add: date_diff_valid)
qed

lemma js_sort_timestamps_asc:
  assumes "\<forall>tc\<in>set xs. D (timestamp tc) \<noteq> None"
  shows "js_sort (\<lambda>a b. date_diff D (timestamp a) (timestamp b)) xs
           = sort_key (\<lambda>tc. the (D (timestamp tc))) xs"
proof (rule js_sort_sort_key, intro ballI)
  fix x y assume "x \<in> set xs" "y \<in> set xs"
  with assms obtain u v where "D (timestamp x) = Some u" "D (timestamp y) = Some v" by blast
  then show "(date_diff D (timestamp x) (timestamp y) \<le> 0)
               = (the (D (timestamp x)) \<le> the (D (timestamp y)))"
    by (simp add: date_diff_valid)
qed

lemma map_Some_the: "\<forall>x\<in>set xs. f x \<noteq> None \<Longrightarrow> map f xs = map Some (map (\<lambda>x. the (f x)) xs)"
  by (induction xs) auto

lemma getTimecardsByDate_eq:
  "getTimecardsByDate D cdh st =
     map (\<lambda>d. \<lparr>wd_date = d,
               wd_timecards = js_sort (\<lambda>a b. date_diff D (timestamp a) (timestamp b))
                                (filter (\<lambda>tc. date tc = d) (filteredTimecards st)),
               wd_totalHours = cdh (js_sort (\<lambda>a b. date_diff D (timestamp a) (timestamp b))
                                (filter (\<lambda>tc. date tc = d) (filteredTimecards st)))\<rparr>)
         (js_sort (\<lambda>a b. date_diff D b a) (keys (grouped (filteredTimecards st))))"
  by (simp add: getTimecardsByDate_def Let_def lookup_grouped)

lemma wd_dates: "map wd_date (getTimecardsByDate D cdh st)
                   = js_sort (\<lambda>a b. date_diff D b a) (keys (grouped (filteredTimecards st)))"
  by (simp add: getTimecardsByDate_eq comp_def)

lemma distinct_wd_dates: "distinct (map wd_date (getTimecardsByDate D cdh st))"
  using distinct_keys_grouped [of "filteredTimecards st"]
  by (simp only: wd_dates) (metis mset_js_sort mset_eq_imp_distinct_iff)

lemma set_wd_dates: "set (map wd_date (getTimecardsByDate D cdh st)) = date ` set (filteredTimecards st)"
  by (simp only: wd_dates set_js_sort set_keys_grouped)

lemma wd_in_view:
  assumes "w \<in> set (getTimecardsByDate D cdh st)"
  shows "wd_timecards w = js_sort (\<lambda>a b. date_diff D (timestamp a) (timestamp b))
                            (filter (\<lambda>tc. date tc = wd_date w) (filteredTimecards st))"
    and "wd_totalHours w = cdh (wd_timecards w)"
    and "wd_date w \<in> date ` set (filteredTimecards st)"
proof -
  from assms obtain d where d: "d \<in> set (js_sort (\<lambda>a b. date_diff D b a) (keys (grouped (filteredTimecards st))))"
    and w: "w = \<lparr>wd_date = d,
               wd_timecards = js_sort (\<lambda>a b. date_diff D (timestamp a) (timestamp b))
                                (filter (\<lambda>tc. date tc = d) (filteredTimecards st)),
               wd_totalHours = cdh (js_sort (\<lambda>a b. date_diff D (timestamp a) (timestamp b))
                                (filter (\<lambda>tc. date tc = d) (filteredTimecards st)))\<rparr>"
    unfolding getTimecardsByDate_eq by auto
  show "wd_timecards w = js_sort (\<lambda>a b. date_diff D (timestamp a) (timestamp b))
                            (filter (\<lambda>tc. date tc = wd_date w) (filteredTimecards st))"
    by (simp add: w)
  show "wd_totalHours w = cdh (wd_timecards w)" by (simp add: w)
  from d show "wd_date w \<in> date ` set (filteredTimecards st)"
    by (simp add: w set_js_sort set_keys_grouped)
qed

lemma mset_concat_view:
  "mset (concat (map wd_timecards (getTimecardsByDate D cdh st))) = mset (filteredTimecards st)"
proof -
  let ?tcs = "filteredTimecards st"
  let ?ks = "js_sort (\<lambda>a b. date_diff D b a) (keys (grouped ?tcs))"
  have dist: "distinct ?ks"
    using distinct_keys_grouped [of ?tcs] by (metis mset_js_sort mset_eq_imp_distinct_iff)
  have sub: "date ` set ?tcs \<subseteq> set ?ks"
    by (simp add: set_js_sort set_keys_grouped)
  have "mset (concat (map wd_timecards (getTimecardsByDate D cdh st)))
          = (\<Sum>d\<leftarrow>?ks. mset (filter (\<lambda>tc. date tc = d) ?tcs))"
    by (simp add: getTimecardsByDate_eq mset_concat comp_def mset_js_sort)
  also have "\<dots> = mset ?tcs" using dist sub by (rule mset_concat_groups)
  finally show ?thesis .
qed

lemma sorted_desc_keys:
  fixes f :: "'a \<Rightarrow> int"
  shows "sorted_wrt (\<ge>) (map f (sort_key (\<lambda>x. - f x) xs))"
proof -
  have "sorted (map (\<lambda>x. - f x) (sort_key (\<lambda>x. - f x) xs))" by (rule sorted_sort_key)
  then show ?thesis by (simp add: sorted_wrt_map)
qed

text \<open>
  Claim C4.  For every collection of events (the state variable \<^verbatim>\<open>filteredTimecards\<close>),
  \<^verbatim>\<open>getTimecardsByDate\<close> yields exactly one work-day per distinct date present, each
  holding exactly the events of its date; the work-days are in descending order of
  date and the events of each day in ascending order of timestamp (for dates and
  timestamps that are valid date strings); the events of all days together are a
  permutation of the input, and the empty input yields the empty sequence.
\<close>

theorem C4_day_grouper:
  "distinct (map wd_date (getTimecardsByDate D cdh st))
   \<and> set (map wd_date (getTimecardsByDate D cdh st)) = date ` set (filteredTimecards st)
   \<and> (\<forall>w\<in>set (getTimecardsByDate D cdh st).
         mset (wd_timecards w) = mset (filter (\<lambda>tc. date tc = wd_date w) (filteredTimecards st)))
   \<and> ((\<forall>tc\<in>set (filteredTimecards st). D (date tc) \<noteq> None) \<longrightarrow>
         (\<exists>ts. map (\<lambda>w. D (wd_date w)) (getTimecardsByDate D cdh st) = map Some ts
               \<and> sorted_wrt (\<ge>) ts))
   \<and> ((\<forall>tc\<in>set (filteredTimecards st). D (timestamp tc) \<noteq> None) \<longrightarrow>
         (\<forall>w\<in>set (getTimecardsByDate D cdh st).
            \<exists>ts. map (\<lambda>tc. D (timestamp tc)) (wd_timecards w) = map Some ts \<and> sorted ts))
   \<and> mset (concat (map wd_timecards (getTimecardsByDate D cdh st))) = mset (filteredTimecards st)
   \<and> (filteredTimecards st = [] \<longrightarrow> getTimecardsByDate D cdh st = [])"
proof -
  let ?tcs = "filteredTimecards st"
  let ?days = "getTimecardsByDate D cdh st"
  have 3: "mset (wd_timecards w) = mset (filter (\<lambda>tc. date tc = wd_date w) ?tcs)"
    if "w \<in> set ?days" for w
    using wd_in_view(1) [OF that] by (simp add: mset_js_sort)
  have 4: "\<exists>ts. map (\<lambda>w. D (wd_date w)) ?days = map Some ts \<and> sorted_wrt (\<ge>) ts"
    if v: "\<forall>tc\<in>set ?tcs. D (date tc) \<noteq> None"
  proof -
    let ?ks = "keys (grouped ?tcs)"
    from v have vk: "\<forall>d\<in>set ?ks. D d \<noteq> None" by (auto simp: set_keys_grouped)
    then have s: "js_sort (\<lambda>a b. date_diff D b a) ?ks = sort_key (\<lambda>d. - the (D d)) ?ks"
      by (rule js_sort_dates_desc)
    have "map (\<lambda>w. D (wd_date w)) ?days = map D (map wd_date ?days)" by (simp add: comp_def)
    also have "\<dots> = map D (sort_key (\<lambda>d. - the (D d)) ?ks)" by (simp only: wd_dates s)
    also have "\<dots> = map Some (map (\<lambda>d. the (D d)) (sort_key (\<lambda>d. - the (D d)) ?ks))"
      by (rule map_Some_the) (use vk in simp)
    finally show ?thesis using sorted_desc_keys [of "\<lambda>d. the (D d)" ?ks] by blast
  qed
  have 5: "\<exists>ts. map (\<lambda>tc. D (timestamp tc)) (wd_timecards w) = map Some ts \<and> sorted ts"
    if v: "\<forall>tc\<in>set ?tcs. D (timestamp tc) \<noteq> None" and w: "w \<in> set ?days" for w
  proof -
    let ?xs = "filter (\<lambda>tc. date tc = wd_date w) ?tcs"
    from v have vx: "\<forall>tc\<in>set ?xs. D (timestamp tc) \<noteq> None" by simp
    then have s: "wd_timecards w = sort_key (\<lambda>tc. the (D (timestamp tc))) ?xs"
      using wd_in_view(1) [OF w] by (simp only: js_sort_timestamps_asc)
    have "map (\<lambda>tc. D (timestamp tc)) (wd_timecards w)
            = map Some (map (\<lambda>tc. the (D (timestamp tc))) (wd_timecards w))"
      by (rule map_Some_the) (use vx in \<open>simp add: s\<close>)
    moreover have "sorted (map (\<lambda>tc. the (D (timestamp tc))) (wd_timecards w))"
      unfolding s by (rule sorted_sort_key)
    ultimately show ?thesis by blast
  qed
  have 7: "?days = []" if "?tcs = []"
    using that by (simp add: getTimecardsByDate_eq grouped_Nil keys_Nil js_sort_def)
  from distinct_wd_dates [of D cdh st] set_wd_dates [of D cdh st] 3 4 5
    mset_concat_view [of D cdh st] 7
  show ?thesis by blast
qed

theorem C4_day_grouper_witness:
  "getTimecardsByDate utcDate (calculateDayHours utcDate) (initialScreen\<lparr>filteredTimecards := shuffledDays\<rparr>)
     = [\<lparr>wd_date = ''2024-01-16'', wd_timecards = drop 2 twoDays, wd_totalHours = 13\<rparr>,
        \<lparr>wd_date = ''2024-01-15'', wd_timecards = take 2 twoDays, wd_totalHours = 9\<rparr>]
   \<and> (\<exists>ts. map utcDate [''2024-01-16'', ''2024-01-15''] = map Some ts \<and> sorted_wrt (\<ge>) ts)
   \<and> (\<exists>ts. map (\<lambda>tc. utcDate (timestamp tc)) (drop 2 twoDays) = map Some ts \<and> sorted ts)
   \<and> mset (take 2 twoDays) = mset (filter (\<lambda>tc. date tc = ''2024-01-15'') shuffledDays)
   \<and> mset (drop 2 twoDays @ take 2 twoDays) = mset shuffledDays"
proof -
  let ?st = "initialScreen\<lparr>filteredTimecards := shuffledDays\<rparr>"
  have v: "getTimecardsByDate utcDate (calculateDayHours utcDate) ?st
     = [\<lparr>wd_date = ''2024-01-16'', wd_timecards = drop 2 twoDays, wd_totalHours = 13\<rparr>,
        \<lparr>wd_date = ''2024-01-15'', wd_timecards = take 2 twoDays, wd_totalHours = 9\<rparr>]"
    by (simp add: getTimecardsByDate_def Let_def shuffledDays_def twoDays_def ev_def grouped_def
        keys_def lookup_def js_sort_def date_diff_def utcDate_def calculateDayHours_def
        hours_step_def clock0_def)
  have f: "filteredTimecards ?st = shuffledDays" by simp
  have d: "\<forall>tc\<in>set (filteredTimecards ?st). utcDate (date tc) \<noteq> None"
    by (simp add: shuffledDays_def ev_def utcDate_def)
  have t: "\<forall>tc\<in>set (filteredTimecards ?st). utcDate (timestamp tc) \<noteq> None"
    by (simp add: shuffledDays_def ev_def utcDate_def)
  note T = C4_day_grouper [of utcDate "calculateDayHours utcDate" ?st]
  from T d have "\<exists>ts. map (\<lambda>w. utcDate (wd_date w))
                       (getTimecardsByDate utcDate (calculateDayHours utcDate) ?st) = map Some ts
                    \<and> sorted_wrt (\<ge>) ts"
    by blast
  then have a: "\<exists>ts. map utcDate [''2024-01-16'', ''2024-01-15''] = map Some ts \<and> sorted_wrt (\<ge>) ts"
    unfolding v by simp
  from T have "mset (concat (map wd_timecards (getTimecardsByDate utcDate (calculateDayHours utcDate) ?st)))
                 = mset (filteredTimecards ?st)"
    by blast
  then have b: "mset (drop 2 twoDays @ take 2 twoDays) = mset shuffledDays"
    unfolding v by simp
  from T t have "\<forall>w\<in>set (getTimecardsByDate utcDate (calculateDayHours utcDate) ?st).
            \<exists>ts. map (\<lambda>tc. utcDate (timestamp tc)) (wd_timecards w) = map Some ts \<and> sorted ts"
    by blast
  then have c: "\<exists>ts. map (\<lambda>tc. utcDate (timestamp tc)) (drop 2 twoDays) = map Some ts \<and> sorted ts"
    unfolding v by simp
  from T have "\<forall>w\<in>set (getTimecardsByDate utcDate (calculateDayHours utcDate) ?st).
         mset (wd_timecards w) = mset (filter (\<lambda>tc. date tc = wd_date w) (filteredTimecards ?st))"
    by blast
  then have e: "mset (take 2 twoDays) = mset (filter (\<lambda>tc. date tc = ''2024-01-15'') shuffledDays)"
    unfolding v f by simp
  from v a b c e show ?thesis by blast
qed

section \<open>Reordering the input\<close>

lemma sort_key_mset_unique:
  fixes f :: "'a \<Rightarrow> int"
  assumes "mset ys = mset xs" and "distinct (map f xs)"
  shows "sort_key f ys = sort_key f xs"
proof (rule map_sorted_distinct_set_unique [where f = f])
  have s: "set ys = set xs" using assms(1) by (rule mset_eq_setD)
  have "mset (map f ys) = mset (map f xs)" using assms(1) by simp
  then have dy: "distinct (map f ys)" using assms(2) by (metis mset_eq_imp_distinct_iff)
  from assms(2) have "inj_on f (set xs)" by (simp add: distinct_map)
  then show "inj_on f (set (sort_key f ys) \<union> set (sort_key f xs))" by (simp add: s)
  show "sorted (map f (sort_key f ys))" "sorted (map f (sort_key f xs))"
    by (rule sorted_sort_key)+
  have "mset (map f (sort_key f ys)) = mset (map f ys)" by simp
  then show "distinct (map f (sort_key f ys))" using dy by (metis mset_eq_imp_distinct_iff)
  have "mset (map f (sort_key f xs)) = mset (map f xs)" by simp
  then show "distinct (map f (sort_key f xs))" using assms(2) by (metis mset_eq_imp_distinct_iff)
  show "set (sort_key f ys) = set (sort_key f xs)" by (simp add: s)
qed

lemma view_of_permutation:
  assumes perm: "mset (filteredTimecards st') = mset (filteredTimecards st)"
    and valid: "\<forall>tc\<in>set (filteredTimecards st). D (date tc) \<noteq> None \<and> D (timestamp tc) \<noteq> None"
    and inj: "inj_on D (date ` set (filteredTimecards st))"
    and dist: "distinct (filteredTimecards st)"
    and noties: "\<forall>a\<in>set (filteredTimecards st). \<forall>b\<in>set (filteredTimecards st).
                   date a = date b \<and> D (timestamp a) = D (timestamp b) \<longrightarrow> a = b"
  shows "getTimecardsByDate D cdh st' = getTimecardsByDate D cdh st"
proof -
  let ?tcs = "filteredTimecards st" and ?tcs' = "filteredTimecards st'"
  let ?ks = "keys (grouped ?tcs)" and ?ks' = "keys (grouped ?tcs')"
  let ?f = "\<lambda>d. - the (D d)"
  let ?g = "\<lambda>tc. the (D (timestamp tc))"
  have sets: "set ?tcs' = set ?tcs" using perm by (rule mset_eq_setD)
  have vk: "\<forall>d\<in>set ?ks. D d \<noteq> None" using valid by (auto simp: set_keys_grouped)
  have vk': "\<forall>d\<in>set ?ks'. D d \<noteq> None" using valid by (auto simp: set_keys_grouped sets)
  have "inj_on ?f (set ?ks)"
  proof (rule inj_onI)
    fix x y assume x: "x \<in> set ?ks" and y: "y \<in> set ?ks" and e: "- the (D x) = - the (D y)"
    from vk x y obtain u v where "D x = Some u" "D y = Some v" by blast
    with e have "D x = D y" by simp
    moreover from x y have "x \<in> date ` set ?tcs" "y \<in> date ` set ?tcs"
      by (simp_all only: set_keys_grouped)
    ultimately show "x = y" using inj by (rule inj_onD [rotated])
  qed
  then have dk: "distinct (map ?f ?ks)" by (simp add: distinct_map distinct_keys_grouped)
  have "mset ?ks' = mset ?ks"
    by (simp add: set_eq_iff_mset_eq_distinct [symmetric] distinct_keys_grouped set_keys_grouped sets)
  then have "sort_key ?f ?ks' = sort_key ?f ?ks" using dk by (rule sort_key_mset_unique)
  then have keys_eq: "js_sort (\<lambda>a b. date_diff D b a) ?ks' = js_sort (\<lambda>a b. date_diff D b a) ?ks"
    by (simp only: js_sort_dates_desc [OF vk] js_sort_dates_desc [OF vk'])
  have day_eq: "js_sort (\<lambda>a b. date_diff D (timestamp a) (timestamp b)) (filter (\<lambda>tc. date tc = d) ?tcs')
              = js_sort (\<lambda>a b. date_diff D (timestamp a) (timestamp b)) (filter (\<lambda>tc. date tc = d) ?tcs)"
    for d
  proof -
    let ?xs = "filter (\<lambda>tc. date tc = d) ?tcs" and ?xs' = "filter (\<lambda>tc. date tc = d) ?tcs'"
    have vx: "\<forall>tc\<in>set ?xs. D (timestamp tc) \<noteq> None" using valid by simp
    have vx': "\<forall>tc\<in>set ?xs'. D (timestamp tc) \<noteq> None" using valid by (simp add: sets)
    have "inj_on ?g (set ?xs)"
    proof (rule inj_onI)
      fix a b assume a: "a \<in> set ?xs" and b: "b \<in> set ?xs" and e: "?g a = ?g b"
      from vx a b obtain u v where "D (timestamp a) = Some u" "D (timestamp b) = Some v" by blast
      with e have "D (timestamp a) = D (timestamp b)" by simp
      with noties a b show "a = b" by simp
    qed
    then have dx: "distinct (map ?g ?xs)" using dist by (simp add: distinct_map)
    have "mset ?xs' = mset ?xs" using perm by simp
    then have "sort_key ?g ?xs' = sort_key ?g ?xs" using dx by (rule sort_key_mset_unique)
    then show ?thesis
      by (simp only: js_sort_timestamps_asc [OF vx] js_sort_timestamps_asc [OF vx'])
  qed
  show ?thesis by (simp only: getTimecardsByDate_eq keys_eq day_eq)
qed

lemma view_stable:
  assumes valid: "\<forall>tc\<in>set (filteredTimecards st). D (timestamp tc) \<noteq> None"
    and w: "w \<in> set (getTimecardsByDate D cdh st)"
  shows "filter (\<lambda>tc. D (timestamp tc) = Some t) (wd_timecards w)
           = filter (\<lambda>tc. date tc = wd_date w \<and> D (timestamp tc) = Some t) (filteredTimecards st)"
proof -
  let ?xs = "filter (\<lambda>tc. date tc = wd_date w) (filteredTimecards st)"
  let ?g = "\<lambda>tc. the (D (timestamp tc))"
  have vx: "\<forall>tc\<in>set ?xs. D (timestamp tc) \<noteq> None" using valid by simp
  then have s: "wd_timecards w = sort_key ?g ?xs"
    using wd_in_view(1) [OF w] by (simp only: js_sort_timestamps_asc)
  have "filter (\<lambda>tc. D (timestamp tc) = Some t) (sort_key ?g ?xs)
          = filter (\<lambda>tc. ?g tc = t) (sort_key ?g ?xs)"
    by (rule filter_cong [OF refl]) (use vx in auto)
  also have "\<dots> = filter (\<lambda>tc. ?g tc = t) ?xs" by (rule sort_key_stable)
  also have "\<dots> = filter (\<lambda>tc. D (timestamp tc) = Some t) ?xs"
    by (rule filter_cong [OF refl]) (use vx in auto)
  finally show ?thesis by (simp add: s conj_commute)
qed

text \<open>
  Claim C9, as the code has it.  For two inputs that are permutations of one another,
  with valid date strings and timestamps, where different dates denote different days
  and no two events of one date share a timestamp, \<^verbatim>\<open>getTimecardsByDate\<close> returns the
  same days, the same order of events and the same hours.  Events of one date with
  equal timestamps stay in their order of arrival (the sort is stable); the identifier
  is not looked at.
\<close>

theorem C9_reordering_without_ties:
  "(mset (filteredTimecards st') = mset (filteredTimecards st)
      \<and> (\<forall>tc\<in>set (filteredTimecards st). D (date tc) \<noteq> None \<and> D (timestamp tc) \<noteq> None)
      \<and> inj_on D (date ` set (filteredTimecards st))
      \<and> distinct (filteredTimecards st)
      \<and> (\<forall>a\<in>set (filteredTimecards st). \<forall>b\<in>set (filteredTimecards st).
            date a = date b \<and> D (timestamp a) = D (timestamp b) \<longrightarrow> a = b)
    \<longrightarrow> getTimecardsByDate D cdh st' = getTimecardsByDate D cdh st)
   \<and> ((\<forall>tc\<in>set (filteredTimecards st). D (timestamp tc) \<noteq> None) \<longrightarrow>
        (\<forall>w\<in>set (getTimecardsByDate D cdh st). \<forall>t.
           filter (\<lambda>tc. D (timestamp tc) = Some t) (wd_timecards w)
             = filter (\<lambda>tc. date tc = wd_date w \<and> D (timestamp tc) = Some t) (filteredTimecards st)))"
  using view_of_permutation [of st' st D cdh] view_stable [of st D _ cdh] by blast

theorem C9_reordering_without_ties_witness:
  "getTimecardsByDate utcDate (calculateDayHours utcDate) (initialScreen\<lparr>filteredTimecards := shuffledDays\<rparr>)
     = getTimecardsByDate utcDate (calculateDayHours utcDate) (initialScreen\<lparr>filteredTimecards := twoDays\<rparr>)
   \<and> filter (\<lambda>tc. utcDate (timestamp tc) = Some 1705320000000) tieDaySwapped
     = filter (\<lambda>tc. date tc = ''2024-01-15'' \<and> utcDate (timestamp tc) = Some 1705320000000) tieDaySwapped
   \<and> map tc_id (filter (\<lambda>tc. utcDate (timestamp tc) = Some 1705320000000) tieDaySwapped) = [''3'', ''2'']"
proof -
  let ?st = "initialScreen\<lparr>filteredTimecards := twoDays\<rparr>"
  let ?st' = "initialScreen\<lparr>filteredTimecards := shuffledDays\<rparr>"
  let ?sw = "initialScreen\<lparr>filteredTimecards := tieDaySwapped\<rparr>"
  have 1: "mset (filteredTimecards ?st') = mset (filteredTimecards ?st)"
    by (simp add: shuffledDays_def twoDays_def)
  have 2: "\<forall>tc\<in>set (filteredTimecards ?st). utcDate (date tc) \<noteq> None \<and> utcDate (timestamp tc) \<noteq> None"
    by (simp add: twoDays_def ev_def utcDate_def)
  have 3: "inj_on utcDate (date ` set (filteredTimecards ?st))"
    by (simp add: twoDays_def ev_def utcDate_def)
  have 4: "distinct (filteredTimecards ?st)"
    by (simp add: twoDays_def ev_def)
  have 5: "\<forall>a\<in>set (filteredTimecards ?st). \<forall>b\<in>set (filteredTimecards ?st).
            date a = date b \<and> utcDate (timestamp a) = utcDate (timestamp b) \<longrightarrow> a = b"
    by (simp add: twoDays_def ev_def utcDate_def)
  from C9_reordering_without_ties [of ?st' ?st utcDate "calculateDayHours utcDate"] 1 2 3 4 5
  have a: "getTimecardsByDate utcDate (calculateDayHours utcDate) ?st'
             = getTimecardsByDate utcDate (calculateDayHours utcDate) ?st"
    by blast
  have v: "getTimecardsByDate utcDate (calculateDayHours utcDate) ?sw
         = [\<lparr>wd_date = ''2024-01-15'', wd_timecards = tieDaySwapped, wd_totalHours = 4\<rparr>]"
    by (simp add: getTimecardsByDate_def Let_def tieDaySwapped_def ev_def grouped_def
        keys_def lookup_def js_sort_def date_diff_def utcDate_def calculateDayHours_def
        hours_step_def clock0_def)
  have 6: "\<forall>tc\<in>set (filteredTimecards ?sw). utcDate (timestamp tc) \<noteq> None"
    by (simp add: tieDaySwapped_def ev_def utcDate_def)
  from C9_reordering_without_ties [of _ ?sw utcDate "calculateDayHours utcDate"] 6
  have "\<forall>w\<in>set (getTimecardsByDate utcDate (calculateDayHours utcDate) ?sw). \<forall>t.
           filter (\<lambda>tc. utcDate (timestamp tc) = Some t) (wd_timecards w)
             = filter (\<lambda>tc. date tc = wd_date w \<and> utcDate (timestamp tc) = Some t) (filteredTimecards ?sw)"
    by blast
  then have b: "filter (\<lambda>tc. utcDate (timestamp tc) = Some 1705320000000) tieDaySwapped
     = filter (\<lambda>tc. date tc = ''2024-01-15'' \<and> utcDate (timestamp tc) = Some 1705320000000) tieDaySwapped"
    unfolding v by simp
  have c: "map tc_id (filter (\<lambda>tc. utcDate (timestamp tc) = Some 1705320000000) tieDaySwapped) = [''3'', ''2'']"
    by (simp add: tieDaySwapped_def ev_def utcDate_def)
  from a b c show ?thesis by blast
qed

text \<open>
  Claim C9 as stated fails: \<open>tieDay\<close> and \<open>tieDaySwapped\<close> hold the same events, but the
  two events at 12:00 come out in their order of arrival, so the outputs differ, the
  second is not in ascending order of identifier, and the hours that the
  specification's calculator computes from them differ (9 and 4).
\<close>

theorem C9_counterexample:
  "mset tieDaySwapped = mset tieDay
   \<and> getTimecardsByDate utcDate (calculateDayHours utcDate) (initialScreen\<lparr>filteredTimecards := tieDaySwapped\<rparr>)
       \<noteq> getTimecardsByDate utcDate (calculateDayHours utcDate) (initialScreen\<lparr>filteredTimecards := tieDay\<rparr>)
   \<and> map tc_id (concat (map wd_timecards
        (getTimecardsByDate utcDate (calculateDayHours utcDate) (initialScreen\<lparr>filteredTimecards := tieDaySwapped\<rparr>))))
       = [''1'', ''3'', ''2'', ''4'']
   \<and> map wd_totalHours
        (getTimecardsByDate utcDate (calculateDayHours utcDate) (initialScreen\<lparr>filteredTimecards := tieDaySwapped\<rparr>))
       = [4]
   \<and> map wd_totalHours
        (getTimecardsByDate utcDate (calculateDayHours utcDate) (initialScreen\<lparr>filteredTimecards := tieDay\<rparr>))
       = [9]"
proof -
  have a: "getTimecardsByDate utcDate (calculateDayHours utcDate) (initialScreen\<lparr>filteredTimecards := tieDaySwapped\<rparr>)
         = [\<lparr>wd_date = ''2024-01-15'', wd_timecards = tieDaySwapped, wd_totalHours = 4\<rparr>]"
    by (simp add: getTimecardsByDate_def Let_def tieDaySwapped_def ev_def grouped_def
        keys_def lookup_def js_sort_def date_diff_def utcDate_def calculateDayHours_def
        hours_step_def clock0_def)
  have b: "getTimecardsByDate utcDate (calculateDayHours utcDate) (initialScreen\<lparr>filteredTimecards := tieDay\<rparr>)
         = [\<lparr>wd_date = ''2024-01-15'', wd_timecards = tieDay, wd_totalHours = 9\<rparr>]"
    by (simp add: getTimecardsByDate_def Let_def tieDay_def ev_def grouped_def
        keys_def lookup_def js_sort_def date_diff_def utcDate_def calculateDayHours_def
        hours_step_def clock0_def)
  have c: "mset tieDaySwapped = mset tieDay" by (simp add: tieDay_def tieDaySwapped_def)
  have d: "map tc_id tieDaySwapped = [''1'', ''3'', ''2'', ''4'']" by (simp add: tieDaySwapped_def ev_def)
  show ?thesis unfolding a b using c d by simp
qed

section \<open>The period filter\<close>

lemma includes_str_iff: "includes_str s q \<longleftrightarrow> (\<exists>pre suf. s = pre @ q @ suf)"
proof (induction s)
  case Nil
  then show ?case by simp
next
  case (Cons c cs)
  show ?case
  proof
    assume "includes_str (c # cs) q"
    then consider "take (length q) (c # cs) = q" | "includes_str cs q" by auto
    then show "\<exists>pre suf. c # cs = pre @ q @ suf"
    proof cases
      case 1
      then have "c # cs = [] @ q @ drop (length q) (c # cs)"
        by (metis append_Nil append_take_drop_id)
      then show ?thesis by blast
    next
      case 2
      with Cons.IH obtain pre suf where "cs = pre @ q @ suf" by blast
      then have "c # cs = (c # pre) @ q @ suf" by simp
      then show ?thesis by blast
    qed
  next
    assume "\<exists>pre suf. c # cs = pre @ q @ suf"
    then obtain pre suf where e: "c # cs = pre @ q @ suf" by blast
    show "includes_str (c # cs) q"
    proof (cases pre)
      case Nil
      with e have "take (length q) (c # cs) = q" by simp
      then show ?thesis by simp
    next
      case (Cons p pre')
      with e have "cs = pre' @ q @ suf" by simp
      with Cons.IH have "includes_str cs q" by blast
      then show ?thesis by simp
    qed
  qed
qed

lemma matchesQuery_iff:
  "matchesQuery q tc \<longleftrightarrow>
     ((\<exists>j. job tc = Some j \<and> contains_ci (name j) q) \<or> (\<exists>t. task tc = Some t \<and> contains_ci (name t) q)
      \<or> contains_ci (tc_type tc) q)"
  by (simp add: matchesQuery_def contains_ci_def includes_str_iff split: option.splits)

lemma query_filter:
  "(if q \<noteq> [] then filter (matchesQuery q) xs else xs) = filter (query_retains q) xs"
proof (cases "q = []")
  case True
  then show ?thesis by (simp add: query_retains_def)
next
  case False
  then have "matchesQuery q = query_retains q"
    by (intro ext) (simp add: query_retains_def matchesQuery_iff)
  with False show ?thesis by simp
qed

lemma inPeriod_iff: "inPeriod L lo hi tc = date_within L lo hi tc"
  by (simp add: inPeriod_def date_within_def split: option.splits)

lemma filtered_eq:
  "filteredTimecards (filterTimecards L cdh now st) =
     filter (query_retains (searchQuery st))
       (case periodBounds L (selectedPeriod st) now of
          None \<Rightarrow> timecards st
        | Some (lo, hi) \<Rightarrow> filter (date_within L lo hi) (timecards st))"
proof -
  have "inPeriod L lo hi = date_within L lo hi" for lo hi
    by (rule ext) (rule inPeriod_iff)
  then show ?thesis
    by (simp add: filterTimecards_def Let_def query_filter split: option.splits)
qed

text \<open>
  Claim C6.  \<^verbatim>\<open>filterTimecards\<close> retains exactly (in the order of the store) the events
  whose attributed date, as \<^verbatim>\<open>parseISO\<close> reads it, lies in the closed interval from
  \<^verbatim>\<open>startOfWeek(now)\<close> to \<^verbatim>\<open>endOfWeek(now)\<close> for \<^verbatim>\<open>'week'\<close>, from \<^verbatim>\<open>startOfMonth(now)\<close> to
  \<^verbatim>\<open>endOfMonth(now)\<close> for \<^verbatim>\<open>'month'\<close>, with no bound for \<^verbatim>\<open>'all'\<close>, and which match the
  query: the job name, the task name or the event kind contains the query as a
  case-insensitive substring, and the empty query matches every event.  An event dated
  exactly at the start or at the end of the week is retained.
\<close>

theorem C6_period_filter:
  "(selectedPeriod st = ''week'' \<longrightarrow>
      filteredTimecards (filterTimecards L cdh now st)
        = filter (\<lambda>tc. date_within L (startOfWeek L now) (endOfWeek L now) tc
                       \<and> query_retains (searchQuery st) tc) (timecards st))
   \<and> (selectedPeriod st = ''month'' \<longrightarrow>
      filteredTimecards (filterTimecards L cdh now st)
        = filter (\<lambda>tc. date_within L (startOfMonth L now) (endOfMonth L now) tc
                       \<and> query_retains (searchQuery st) tc) (timecards st))
   \<and> (selectedPeriod st = ''all'' \<longrightarrow>
      filteredTimecards (filterTimecards L cdh now st)
        = filter (query_retains (searchQuery st)) (timecards st))
   \<and> (selectedPeriod st = ''week'' \<and> startOfWeek L now \<le> endOfWeek L now
        \<and> tc \<in> set (timecards st) \<and> query_retains (searchQuery st) tc
        \<and> (parseISO L (date tc) = Some (startOfWeek L now) \<or> parseISO L (date tc) = Some (endOfWeek L now))
      \<longrightarrow> tc \<in> set (filteredTimecards (filterTimecards L cdh now st)))
   \<and> query_retains [] tc
   \<and> (q \<noteq> [] \<longrightarrow> query_retains q tc =
        ((\<exists>j. job tc = Some j \<and> contains_ci (name j) q) \<or> (\<exists>t. task tc = Some t \<and> contains_ci (name t) q)
         \<or> contains_ci (tc_type tc) q))"
proof -
  have w: "filteredTimecards (filterTimecards L cdh now st)
        = filter (\<lambda>tc. date_within L (startOfWeek L now) (endOfWeek L now) tc
                       \<and> query_retains (searchQuery st) tc) (timecards st)"
    if "selectedPeriod st = ''week''"
    using that by (simp add: filtered_eq periodBounds_def conj_commute)
  have m: "filteredTimecards (filterTimecards L cdh now st)
        = filter (\<lambda>tc. date_within L (startOfMonth L now) (endOfMonth L now) tc
                       \<and> query_retains (searchQuery st) tc) (timecards st)"
    if "selectedPeriod st = ''month''"
    using that by (simp add: filtered_eq periodBounds_def conj_commute)
  have a: "filteredTimecards (filterTimecards L cdh now st)
        = filter (query_retains (searchQuery st)) (timecards st)"
    if "selectedPeriod st = ''all''"
    using that by (simp add: filtered_eq periodBounds_def)
  have b: "tc \<in> set (filteredTimecards (filterTimecards L cdh now st))"
    if "selectedPeriod st = ''week'' \<and> startOfWeek L now \<le> endOfWeek L now
        \<and> tc \<in> set (timecards st) \<and> query_retains (searchQuery st) tc
        \<and> (parseISO L (date tc) = Some (startOfWeek L now) \<or> parseISO L (date tc) = Some (endOfWeek L now))"
  proof -
    from that have "date_within L (startOfWeek L now) (endOfWeek L now) tc"
      by (auto simp: date_within_def)
    with that show ?thesis by (simp add: w)
  qed
  have e: "query_retains [] tc" by (simp add: query_retains_def)
  have q: "query_retains q tc =
        ((\<exists>j. job tc = Some j \<and> contains_ci (name j) q) \<or> (\<exists>t. task tc = Some t \<and> contains_ci (name t) q)
         \<or> contains_ci (tc_type tc) q)" if "q \<noteq> []"
    using that by (simp add: query_retains_def)
  from w m a b e q show ?thesis by blast
qed

theorem C6_period_filter_witness:
  "filter (\<lambda>tc. date_within utcFns (startOfWeek utcFns sampleNow) (endOfWeek utcFns sampleNow) tc
                 \<and> query_retains ''CLOCK'' tc) weekStore
     = [weekStore ! 1, weekStore ! 2, weekStore ! 4, weekStore ! 5]
   \<and> filter (\<lambda>tc. date_within utcFns (startOfMonth utcFns sampleNow) (endOfMonth utcFns sampleNow) tc
                 \<and> query_retains [] tc) weekStore
     = weekStore
   \<and> filter (query_retains ''lunch'') weekStore = [weekStore ! 2, weekStore ! 3, weekStore ! 4]
   \<and> startOfWeek utcFns sampleNow = 1705190400000 \<and> endOfWeek utcFns sampleNow = 1705795199999
   \<and> parseISO utcFns (date (weekStore ! 1)) = Some (startOfWeek utcFns sampleNow)
   \<and> weekStore ! 1 \<in> set (filteredTimecards (filterTimecards utcFns (calculateDayHours utcDate) sampleNow
         (initialScreen\<lparr>timecards := weekStore, searchQuery := ''CLOCK''\<rparr>)))
   \<and> query_retains ''CLOCK'' (weekStore ! 1) = contains_ci ''clock_in'' ''CLOCK''"
proof -
  let ?cdh = "calculateDayHours utcDate"
  let ?st = "initialScreen\<lparr>timecards := weekStore, searchQuery := ''CLOCK''\<rparr>"
  let ?stm = "initialScreen\<lparr>timecards := weekStore, selectedPeriod := ''month''\<rparr>"
  let ?sta = "initialScreen\<lparr>timecards := weekStore, selectedPeriod := ''all'', searchQuery := ''lunch''\<rparr>"
  have p: "selectedPeriod ?st = ''week''" "selectedPeriod ?stm = ''month''" "selectedPeriod ?sta = ''all''"
    by (simp_all add: initialScreen_def)
  have s: "searchQuery ?st = ''CLOCK''" "searchQuery ?stm = []" "searchQuery ?sta = ''lunch''"
    "timecards ?st = weekStore" "timecards ?stm = weekStore" "timecards ?sta = weekStore"
    by (simp_all add: initialScreen_def)
  have v: "filteredTimecards (filterTimecards utcFns ?cdh sampleNow ?st)
             = [weekStore ! 1, weekStore ! 2, weekStore ! 4, weekStore ! 5]"
    by code_simp
  have vm: "filteredTimecards (filterTimecards utcFns ?cdh sampleNow ?stm) = weekStore"
    by code_simp
  have va: "filteredTimecards (filterTimecards utcFns ?cdh sampleNow ?sta)
             = [weekStore ! 2, weekStore ! 3, weekStore ! 4]"
    by code_simp
  have b: "startOfWeek utcFns sampleNow = 1705190400000 \<and> endOfWeek utcFns sampleNow = 1705795199999
   \<and> parseISO utcFns (date (weekStore ! 1)) = Some (startOfWeek utcFns sampleNow)"
    by (simp add: utcFns_def sampleNow_def weekStore_def ev_def utcDate_def)
  note W = C6_period_filter [of ?st utcFns ?cdh sampleNow "weekStore ! 1" "''CLOCK''"]
  from W p(1)
  have "filteredTimecards (filterTimecards utcFns ?cdh sampleNow ?st)
        = filter (\<lambda>tc. date_within utcFns (startOfWeek utcFns sampleNow) (endOfWeek utcFns sampleNow) tc
                       \<and> query_retains (searchQuery ?st) tc) (timecards ?st)"
    by blast
  then have 1: "filter (\<lambda>tc. date_within utcFns (startOfWeek utcFns sampleNow) (endOfWeek utcFns sampleNow) tc
                 \<and> query_retains ''CLOCK'' tc) weekStore
     = [weekStore ! 1, weekStore ! 2, weekStore ! 4, weekStore ! 5]"
    by (simp only: v s)
  from C6_period_filter [of ?stm utcFns ?cdh sampleNow] p(2)
  have "filteredTimecards (filterTimecards utcFns ?cdh sampleNow ?stm)
        = filter (\<lambda>tc. date_within utcFns (startOfMonth utcFns sampleNow) (endOfMonth utcFns sampleNow) tc
                       \<and> query_retains (searchQuery ?stm) tc) (timecards ?stm)"
    by blast
  then have 2: "filter (\<lambda>tc. date_within utcFns (startOfMonth utcFns sampleNow) (endOfMonth utcFns sampleNow) tc
                 \<and> query_retains [] tc) weekStore = weekStore"
    by (simp only: vm s)
  from C6_period_filter [of ?sta utcFns ?cdh sampleNow] p(3)
  have "filteredTimecards (filterTimecards utcFns ?cdh sampleNow ?sta)
        = filter (query_retains (searchQuery ?sta)) (timecards ?sta)"
    by blast
  then have 3: "filter (query_retains ''lunch'') weekStore = [weekStore ! 2, weekStore ! 3, weekStore ! 4]"
    by (simp only: va s)
  have ne: "''CLOCK'' \<noteq> []" by simp
  have f: "job (weekStore ! 1) = None" "task (weekStore ! 1) = None" "tc_type (weekStore ! 1) = ''clock_in''"
    by (simp_all add: weekStore_def ev_def)
  from W ne have "query_retains ''CLOCK'' (weekStore ! 1) =
        ((\<exists>j. job (weekStore ! 1) = Some j \<and> contains_ci (name j) ''CLOCK'')
         \<or> (\<exists>t. task (weekStore ! 1) = Some t \<and> contains_ci (name t) ''CLOCK'')
         \<or> contains_ci (tc_type (weekStore ! 1)) ''CLOCK'')"
    by blast
  then have 4: "query_retains ''CLOCK'' (weekStore ! 1) = contains_ci ''clock_in'' ''CLOCK''"
    by (simp only: f) simp
  have "weekStore ! 1 \<in> set (filter (\<lambda>tc. date_within utcFns (startOfWeek utcFns sampleNow) (endOfWeek utcFns sampleNow) tc
                 \<and> query_retains ''CLOCK'' tc) weekStore)"
    by (simp only: 1) simp
  then have q: "query_retains (searchQuery ?st) (weekStore ! 1)" and m: "weekStore ! 1 \<in> set (timecards ?st)"
    by (simp_all only: s set_filter mem_Collect_eq)
  have le: "startOfWeek utcFns sampleNow \<le> endOfWeek utcFns sampleNow"
    using b by simp
  from W p(1) le m q b
  have 5: "weekStore ! 1 \<in> set (filteredTimecards (filterTimecards utcFns ?cdh sampleNow ?st))"
    by blast
  from 1 2 3 4 5 b show ?thesis by blast
qed

section \<open>Submission\<close>

lemma service_conflict_iff:
  "service_submitForApproval d store = Inl alreadySubmitted \<longleftrightarrow>
     (\<exists>tc\<in>set store. date tc = d \<and> (status tc = ''submitted'' \<or> status tc = ''approved''))"
  by (simp add: service_submitForApproval_def list_ex_iff)

lemma service_success_iff:
  "(\<exists>store'. service_submitForApproval d store = Inr store') \<longleftrightarrow>
     \<not> (\<exists>tc\<in>set store. date tc = d \<and> (status tc = ''submitted'' \<or> status tc = ''approved''))"
  by (simp add: service_submitForApproval_def list_ex_iff)

lemma service_twice:
  assumes "d \<in> date ` set store"
    and "service_submitForApproval d store = Inr store'"
  shows "service_submitForApproval d store' = Inl alreadySubmitted"
proof -
  let ?f = "\<lambda>tc. if date tc = d then tc\<lparr>status := ''submitted''\<rparr> else tc"
  have s: "store' = map ?f store"
    using assms(2)
    by (cases "list_ex (\<lambda>tc. date tc = d \<and> (status tc = ''submitted'' \<or> status tc = ''approved'')) store")
       (simp_all add: service_submitForApproval_def)
  from assms(1) obtain tc where tc: "tc \<in> set store" "date tc = d" by blast
  from tc(1) have "?f tc \<in> set (map ?f store)" by (simp only: set_map) (rule imageI)
  moreover have "?f tc = tc\<lparr>status := ''submitted''\<rparr>" using tc(2) by simp
  ultimately have m: "tc\<lparr>status := ''submitted''\<rparr> \<in> set store'" by (simp only: s)
  have p: "date (tc\<lparr>status := ''submitted''\<rparr>) = d
          \<and> (status (tc\<lparr>status := ''submitted''\<rparr>) = ''submitted''
               \<or> status (tc\<lparr>status := ''submitted''\<rparr>) = ''approved'')"
    using tc(2) by simp
  have "\<exists>x\<in>set store'. date x = d \<and> (status x = ''submitted'' \<or> status x = ''approved'')"
    by (rule bexI [where x = "tc\<lparr>status := ''submitted''\<rparr>"]) (rule p, rule m)
  then show ?thesis by (simp only: service_conflict_iff)
qed

lemma submitDisabled_view:
  assumes "w \<in> set (getTimecardsByDate D cdh st)"
  shows "submitDisabled (wd_timecards w) \<longleftrightarrow>
           (\<exists>tc\<in>set (filteredTimecards st). date tc = wd_date w \<and> (status tc = ''submitted'' \<or> status tc = ''approved''))"
proof -
  have "set (wd_timecards w) = {tc \<in> set (filteredTimecards st). date tc = wd_date w}"
    by (simp add: wd_in_view(1) [OF assms] set_js_sort)
  then show ?thesis
    unfolding submitDisabled_def list_ex_iff by blast
qed

text \<open>
  Claim C7.  Submitting a date succeeds if and only if no event of that date in the
  store has status \<^verbatim>\<open>submitted\<close> or \<^verbatim>\<open>approved\<close>; otherwise the service reports the
  conflict, and the screen's handler turns it into an error alert and changes nothing.
  For a date that has events, submitting twice in a row gives success and then the
  conflict.  Whatever the service does, the handler ends in one of its two alerts.  On
  the screen, a day's Submit button is disabled exactly when one of the day's displayed
  events has status \<^verbatim>\<open>submitted\<close> or \<^verbatim>\<open>approved\<close>.
\<close>

theorem C7_submission_guard:
  "((\<exists>store'. service_submitForApproval d store = Inr store') \<longleftrightarrow>
      \<not> (\<exists>tc\<in>set store. date tc = d \<and> (status tc = ''submitted'' \<or> status tc = ''approved'')))
   \<and> ((\<exists>tc\<in>set store. date tc = d \<and> (status tc = ''submitted'' \<or> status tc = ''approved''))
        \<longrightarrow> service_submitForApproval d store = Inl alreadySubmitted
          \<and> submitForApproval service_submitForApproval d (store, st)
              = (store, st, Alert ''Error'' ''already submitted''))
   \<and> (d \<in> date ` set store
        \<and> \<not> (\<exists>tc\<in>set store. date tc = d \<and> (status tc = ''submitted'' \<or> status tc = ''approved''))
        \<longrightarrow> (\<exists>store'. submitForApproval service_submitForApproval d (store, st)
                          = (store', st\<lparr>timecards := store'\<rparr>,
                             Alert ''Success'' ''Timecard submitted for approval'')
                \<and> submitForApproval service_submitForApproval d (store', st\<lparr>timecards := store'\<rparr>)
                          = (store', st\<lparr>timecards := store'\<rparr>, Alert ''Error'' ''already submitted'')))
   \<and> ((\<exists>store'. service d store = Inr store'
          \<and> submitForApproval service d (store, st)
              = (store', st\<lparr>timecards := store'\<rparr>, Alert ''Success'' ''Timecard submitted for approval''))
       \<or> (\<exists>error. service d store = Inl error
          \<and> submitForApproval service d (store, st)
              = (store, st, Alert ''Error'' (if message error \<noteq> [] then message error
                                             else ''Failed to submit for approval''))))
   \<and> (submitDisabled tcs \<longleftrightarrow> (\<exists>tc\<in>set tcs. status tc = ''submitted'' \<or> status tc = ''approved''))
   \<and> (\<forall>w\<in>set (getTimecardsByDate D cdh st).
         submitDisabled (wd_timecards w) \<longleftrightarrow>
           (\<exists>tc\<in>set (filteredTimecards st).
              date tc = wd_date w \<and> (status tc = ''submitted'' \<or> status tc = ''approved'')))"
proof -
  let ?taken = "\<exists>tc\<in>set store. date tc = d \<and> (status tc = ''submitted'' \<or> status tc = ''approved'')"
  have 2: "service_submitForApproval d store = Inl alreadySubmitted
          \<and> submitForApproval service_submitForApproval d (store, st)
              = (store, st, Alert ''Error'' ''already submitted'')" if ?taken
  proof -
    from that have "service_submitForApproval d store = Inl alreadySubmitted"
      by (simp only: service_conflict_iff)
    then show ?thesis by (simp add: submitForApproval_def alreadySubmitted_def)
  qed
  have 3: "\<exists>store'. submitForApproval service_submitForApproval d (store, st)
                          = (store', st\<lparr>timecards := store'\<rparr>,
                             Alert ''Success'' ''Timecard submitted for approval'')
                \<and> submitForApproval service_submitForApproval d (store', st\<lparr>timecards := store'\<rparr>)
                          = (store', st\<lparr>timecards := store'\<rparr>, Alert ''Error'' ''already submitted'')"
    if "d \<in> date ` set store \<and> \<not> ?taken"
  proof -
    from that obtain store' where s: "service_submitForApproval d store = Inr store'"
      using service_success_iff [of d store] by blast
    with that have "service_submitForApproval d store' = Inl alreadySubmitted"
      using service_twice by blast
    with s show ?thesis by (simp add: submitForApproval_def alreadySubmitted_def)
  qed
  have 4: "(\<exists>store'. service d store = Inr store'
          \<and> submitForApproval service d (store, st)
              = (store', st\<lparr>timecards := store'\<rparr>, Alert ''Success'' ''Timecard submitted for approval''))
       \<or> (\<exists>error. service d store = Inl error
          \<and> submitForApproval service d (store, st)
              = (store, st, Alert ''Error'' (if message error \<noteq> [] then message error
                                             else ''Failed to submit for approval'')))"
    by (cases "service d store") (simp_all add: submitForApproval_def)
  have 5: "submitDisabled tcs \<longleftrightarrow> (\<exists>tc\<in>set tcs. status tc = ''submitted'' \<or> status tc = ''approved'')"
    by (simp add: submitDisabled_def list_ex_iff)
  have c1: "(\<exists>store'. service_submitForApproval d store = Inr store') \<longleftrightarrow> \<not> ?taken"
    by (rule service_success_iff)
  have c6: "\<forall>w\<in>set (getTimecardsByDate D cdh st).
         submitDisabled (wd_timecards w) \<longleftrightarrow>
           (\<exists>tc\<in>set (filteredTimecards st).
              date tc = wd_date w \<and> (status tc = ''submitted'' \<or> status tc = ''approved''))"
    by (intro ballI) (rule submitDisabled_view)
  show ?thesis
    apply (intro conjI impI)
    subgoal by (rule c1)
    subgoal by (rule 2 [THEN conjunct1])
    subgoal by (rule 2 [THEN conjunct2])
    subgoal by (rule 3)
    subgoal by (rule 4)
    subgoal by (rule 5)
    subgoal by (rule c6)
    done
qed

theorem C7_submission_guard_witness:
  "submitForApproval service_submitForApproval ''2024-01-15'' (twoDays, twoDaysScreen)
     = (map (\<lambda>tc. if date tc = ''2024-01-15'' then tc\<lparr>status := ''submitted''\<rparr> else tc) twoDays,
        twoDaysScreen\<lparr>timecards := map (\<lambda>tc. if date tc = ''2024-01-15'' then tc\<lparr>status := ''submitted''\<rparr> else tc) twoDays\<rparr>,
        Alert ''Success'' ''Timecard submitted for approval'')
   \<and> submitForApproval service_submitForApproval ''2024-01-15''
        (map (\<lambda>tc. if date tc = ''2024-01-15'' then tc\<lparr>status := ''submitted''\<rparr> else tc) twoDays,
         twoDaysScreen\<lparr>timecards := map (\<lambda>tc. if date tc = ''2024-01-15'' then tc\<lparr>status := ''submitted''\<rparr> else tc) twoDays\<rparr>)
     = (map (\<lambda>tc. if date tc = ''2024-01-15'' then tc\<lparr>status := ''submitted''\<rparr> else tc) twoDays,
        twoDaysScreen\<lparr>timecards := map (\<lambda>tc. if date tc = ''2024-01-15'' then tc\<lparr>status := ''submitted''\<rparr> else tc) twoDays\<rparr>,
        Alert ''Error'' ''already submitted'')
   \<and> submitForApproval service_submitForApproval ''2024-01-15'' (reopenedDay, twoDaysScreen)
     = (reopenedDay, twoDaysScreen, Alert ''Error'' ''already submitted'')
   \<and> submitDisabled reopenedDay
   \<and> \<not> submitDisabled (wd_timecards (hd (getTimecardsByDate utcDate (calculateDayHours utcDate)
          (filterTimecards utcFns (calculateDayHours utcDate) sampleNow
             (initialScreen\<lparr>timecards := reopenedDay, selectedPeriod := ''all'', searchQuery := ''lunch''\<rparr>)))))"
proof -
  let ?d = "''2024-01-15''"
  let ?sq = "filterTimecards utcFns (calculateDayHours utcDate) sampleNow
               (initialScreen\<lparr>timecards := reopenedDay, selectedPeriod := ''all'', searchQuery := ''lunch''\<rparr>)"
  have a: "?d \<in> date ` set twoDays" by (simp add: twoDays_def ev_def)
  have b: "\<not> (\<exists>tc\<in>set twoDays. date tc = ?d \<and> (status tc = ''submitted'' \<or> status tc = ''approved''))"
    by (simp add: twoDays_def ev_def)
  have c: "\<exists>tc\<in>set reopenedDay. date tc = ?d \<and> (status tc = ''submitted'' \<or> status tc = ''approved'')"
    by (simp add: reopenedDay_def ev_def)
  have c': "\<exists>tc\<in>set reopenedDay. status tc = ''submitted'' \<or> status tc = ''approved''"
    by (simp add: reopenedDay_def ev_def)
  from C7_submission_guard [of ?d twoDays twoDaysScreen] a b
  obtain store' where
    1: "submitForApproval service_submitForApproval ?d (twoDays, twoDaysScreen)
          = (store', twoDaysScreen\<lparr>timecards := store'\<rparr>, Alert ''Success'' ''Timecard submitted for approval'')"
    and 2: "submitForApproval service_submitForApproval ?d (store', twoDaysScreen\<lparr>timecards := store'\<rparr>)
          = (store', twoDaysScreen\<lparr>timecards := store'\<rparr>, Alert ''Error'' ''already submitted'')"
    by blast
  have "submitForApproval service_submitForApproval ?d (twoDays, twoDaysScreen)
     = (map (\<lambda>tc. if date tc = ?d then tc\<lparr>status := ''submitted''\<rparr> else tc) twoDays,
        twoDaysScreen\<lparr>timecards := map (\<lambda>tc. if date tc = ?d then tc\<lparr>status := ''submitted''\<rparr> else tc) twoDays\<rparr>,
        Alert ''Success'' ''Timecard submitted for approval'')"
    using b by (simp add: submitForApproval_def service_submitForApproval_def list_ex_iff)
  with 1 have s: "store' = map (\<lambda>tc. if date tc = ?d then tc\<lparr>status := ''submitted''\<rparr> else tc) twoDays"
    by simp
  from C7_submission_guard [of ?d reopenedDay twoDaysScreen] c
  have 3: "submitForApproval service_submitForApproval ?d (reopenedDay, twoDaysScreen)
     = (reopenedDay, twoDaysScreen, Alert ''Error'' ''already submitted'')"
    by blast
  from C7_submission_guard [of _ _ _ _ reopenedDay] c'
  have 4: "submitDisabled reopenedDay" by blast
  have f: "filteredTimecards ?sq = drop 2 reopenedDay"
    by code_simp
  have v: "getTimecardsByDate utcDate (calculateDayHours utcDate) ?sq
             = [\<lparr>wd_date = ?d, wd_timecards = drop 2 reopenedDay, wd_totalHours = 0\<rparr>]"
    by (simp only: getTimecardsByDate_eq f)
       (simp add: reopenedDay_def ev_def grouped_def keys_def lookup_def js_sort_def date_diff_def
          utcDate_def calculateDayHours_def hours_step_def clock0_def)
  have e: "\<not> (\<exists>tc\<in>set (filteredTimecards ?sq).
              date tc = ?d \<and> (status tc = ''submitted'' \<or> status tc = ''approved''))"
    by (simp only: f) (simp add: reopenedDay_def ev_def)
  have h: "hd (getTimecardsByDate utcDate (calculateDayHours utcDate) ?sq)
             \<in> set (getTimecardsByDate utcDate (calculateDayHours utcDate) ?sq)"
    by (simp only: v) simp
  have wd: "wd_date (hd (getTimecardsByDate utcDate (calculateDayHours utcDate) ?sq)) = ?d"
    by (simp only: v) simp
  from C7_submission_guard [of _ _ ?sq _ _ utcDate "calculateDayHours utcDate"] h
  have "submitDisabled (wd_timecards (hd (getTimecardsByDate utcDate (calculateDayHours utcDate) ?sq))) \<longleftrightarrow>
           (\<exists>tc\<in>set (filteredTimecards ?sq).
              date tc = wd_date (hd (getTimecardsByDate utcDate (calculateDayHours utcDate) ?sq))
              \<and> (status tc = ''submitted'' \<or> status tc = ''approved''))"
    by blast
  with e have 5: "\<not> submitDisabled (wd_timecards (hd (getTimecardsByDate utcDate (calculateDayHours utcDate) ?sq)))"
    by (simp only: wd not_False_eq_True)
  from 1 2 3 4 5 show ?thesis unfolding s by blast
qed

section \<open>The query in the pipeline\<close>

lemma filtered_query_last:
  "filteredTimecards (filterTimecards L cdh now st)
     = (if searchQuery st \<noteq> [] then filter (matchesQuery (searchQuery st)) else (\<lambda>xs. xs))
         (filteredTimecards (filterTimecards L cdh now (st\<lparr>searchQuery := []\<rparr>)))"
  by (simp add: filterTimecards_def Let_def)

lemma summary_of_filtered:
  "summary (filterTimecards L cdh now st)
     = calculateSummary cdh (filteredTimecards (filterTimecards L cdh now st))"
  by (simp add: filterTimecards_def Let_def)

text \<open>
  Claim C10.  With a non-empty query, \<^verbatim>\<open>filterTimecards\<close> keeps, event by event, those
  events of the period that match the query, before anything is grouped; the summary is
  computed from the kept events only, and so are the hours of each day of the day
  view.  For the Monday of 9 hours, the query \<^verbatim>\<open>clock_in\<close> keeps the \<^verbatim>\<open>clock_in\<close> and drops
  the \<^verbatim>\<open>clock_out\<close>: summary and day view then show 0 hours instead of 9 (hours as the
  specification's calculator computes them).
\<close>

theorem C10_query_before_grouping:
  "(searchQuery st \<noteq> [] \<longrightarrow>
      filteredTimecards (filterTimecards L cdh now st)
        = filter (matchesQuery (searchQuery st))
            (filteredTimecards (filterTimecards L cdh now (st\<lparr>searchQuery := []\<rparr>)))
    \<and> summary (filterTimecards L cdh now st)
        = calculateSummary cdh (filter (matchesQuery (searchQuery st))
            (filteredTimecards (filterTimecards L cdh now (st\<lparr>searchQuery := []\<rparr>))))
    \<and> totalHours (summary (filterTimecards L cdh now st))
        = (\<Sum>d\<in>date ` set (filteredTimecards (filterTimecards L cdh now st)).
             cdh (filter (\<lambda>tc. matchesQuery (searchQuery st) tc \<and> date tc = d)
                    (filteredTimecards (filterTimecards L cdh now (st\<lparr>searchQuery := []\<rparr>)))))
    \<and> (\<forall>w\<in>set (getTimecardsByDate D cdh (filterTimecards L cdh now st)).
          wd_totalHours w
            = cdh (js_sort (\<lambda>a b. date_diff D (timestamp a) (timestamp b))
                (filter (\<lambda>tc. matchesQuery (searchQuery st) tc \<and> date tc = wd_date w)
                   (filteredTimecards (filterTimecards L cdh now (st\<lparr>searchQuery := []\<rparr>)))))))
   \<and> totalHours (summary (filterTimecards utcFns (calculateDayHours utcDate) sampleNow mondayScreen)) = 9
   \<and> map wd_totalHours (getTimecardsByDate utcDate (calculateDayHours utcDate)
        (filterTimecards utcFns (calculateDayHours utcDate) sampleNow mondayScreen)) = [9]
   \<and> filteredTimecards (filterTimecards utcFns (calculateDayHours utcDate) sampleNow mondayQueryScreen)
        = [hd twoDays]
   \<and> totalHours (summary (filterTimecards utcFns (calculateDayHours utcDate) sampleNow mondayQueryScreen)) = 0
   \<and> map wd_totalHours (getTimecardsByDate utcDate (calculateDayHours utcDate)
        (filterTimecards utcFns (calculateDayHours utcDate) sampleNow mondayQueryScreen)) = [0]"
proof -
  let ?P = "filteredTimecards (filterTimecards L cdh now (st\<lparr>searchQuery := []\<rparr>))"
  let ?st' = "filterTimecards L cdh now st"
  have g: "filteredTimecards ?st' = filter (matchesQuery (searchQuery st)) ?P
    \<and> summary ?st' = calculateSummary cdh (filter (matchesQuery (searchQuery st)) ?P)
    \<and> totalHours (summary ?st')
        = (\<Sum>d\<in>date ` set (filteredTimecards ?st').
             cdh (filter (\<lambda>tc. matchesQuery (searchQuery st) tc \<and> date tc = d) ?P))
    \<and> (\<forall>w\<in>set (getTimecardsByDate D cdh ?st').
          wd_totalHours w
            = cdh (js_sort (\<lambda>a b. date_diff D (timestamp a) (timestamp b))
                (filter (\<lambda>tc. matchesQuery (searchQuery st) tc \<and> date tc = wd_date w) ?P)))"
    if q: "searchQuery st \<noteq> []"
  proof -
    have f: "filteredTimecards ?st' = filter (matchesQuery (searchQuery st)) ?P"
      using q filtered_query_last [of L cdh now st] by simp
    have s: "summary ?st' = calculateSummary cdh (filter (matchesQuery (searchQuery st)) ?P)"
      using summary_of_filtered [of L cdh now st] by (simp only: f)
    have t: "totalHours (summary ?st')
        = (\<Sum>d\<in>date ` set (filteredTimecards ?st').
             cdh (filter (\<lambda>tc. matchesQuery (searchQuery st) tc \<and> date tc = d) ?P))"
      by (simp only: summary_of_filtered calculateSummary_sums) (simp only: f filter_filter)
    have v: "wd_totalHours w
            = cdh (js_sort (\<lambda>a b. date_diff D (timestamp a) (timestamp b))
                (filter (\<lambda>tc. matchesQuery (searchQuery st) tc \<and> date tc = wd_date w) ?P))"
      if w: "w \<in> set (getTimecardsByDate D cdh ?st')" for w
      using wd_in_view(1,2) [OF w] by (simp only: f filter_filter)
    from f s t v show ?thesis by blast
  qed
  have e1: "totalHours (summary (filterTimecards utcFns (calculateDayHours utcDate) sampleNow mondayScreen)) = 9"
    by (simp add: filterTimecards_def Let_def mondayScreen_def initialScreen_def periodBounds_def
        twoDays_def ev_def calculateSummary_def grouped_def keys_def lookup_def addDay_sel
        zeroSummary_def calculateDayHours_def hours_step_def clock0_def utcDate_def)
  have e2: "map wd_totalHours (getTimecardsByDate utcDate (calculateDayHours utcDate)
        (filterTimecards utcFns (calculateDayHours utcDate) sampleNow mondayScreen)) = [9]"
    by (simp add: filterTimecards_def Let_def mondayScreen_def initialScreen_def periodBounds_def
        twoDays_def ev_def getTimecardsByDate_def grouped_def keys_def lookup_def js_sort_def
        date_diff_def calculateDayHours_def hours_step_def clock0_def utcDate_def)
  have e3: "filteredTimecards (filterTimecards utcFns (calculateDayHours utcDate) sampleNow mondayQueryScreen)
        = [hd twoDays]"
    by code_simp
  have e4: "totalHours (summary (filterTimecards utcFns (calculateDayHours utcDate) sampleNow mondayQueryScreen)) = 0"
    by (simp only: summary_of_filtered e3)
       (simp add: twoDays_def ev_def calculateSummary_def grouped_def keys_def lookup_def addDay_sel
        zeroSummary_def calculateDayHours_def hours_step_def clock0_def utcDate_def)
  have e5: "map wd_totalHours (getTimecardsByDate utcDate (calculateDayHours utcDate)
        (filterTimecards utcFns (calculateDayHours utcDate) sampleNow mondayQueryScreen)) = [0]"
    by (simp only: getTimecardsByDate_eq e3)
       (simp add: twoDays_def ev_def grouped_def keys_def lookup_def js_sort_def
        date_diff_def calculateDayHours_def hours_step_def clock0_def utcDate_def)
  from g e1 e2 e3 e4 e5 show ?thesis by (intro conjI impI) blast+
qed

theorem C10_query_before_grouping_witness:
  "searchQuery mondayQueryScreen \<noteq> []
   \<and> filter (matchesQuery ''clock_in'')
        (filteredTimecards (filterTimecards utcFns (calculateDayHours utcDate) sampleNow
           (mondayQueryScreen\<lparr>searchQuery := []\<rparr>))) = [hd twoDays]
   \<and> calculateDayHours utcDate [hd twoDays] = 0
   \<and> calculateDayHours utcDate (take 2 twoDays) = 9"
proof -
  have q: "searchQuery mondayQueryScreen \<noteq> []" "searchQuery mondayQueryScreen = ''clock_in''"
    by (simp_all add: mondayQueryScreen_def)
  have h: "calculateDayHours utcDate [hd twoDays] = 0 \<and> calculateDayHours utcDate (take 2 twoDays) = 9"
    by (simp add: twoDays_def ev_def calculateDayHours_def hours_step_def clock0_def utcDate_def)
  note T = C10_query_before_grouping [of mondayQueryScreen utcFns "calculateDayHours utcDate" sampleNow]
  from T q(1) have
    "filteredTimecards (filterTimecards utcFns (calculateDayHours utcDate) sampleNow mondayQueryScreen)
       = filter (matchesQuery (searchQuery mondayQueryScreen))
           (filteredTimecards (filterTimecards utcFns (calculateDayHours utcDate) sampleNow
              (mondayQueryScreen\<lparr>searchQuery := []\<rparr>)))"
    by blast
  moreover from T have
    "filteredTimecards (filterTimecards utcFns (calculateDayHours utcDate) sampleNow mondayQueryScreen)
       = [hd twoDays]"
    by blast
  ultimately show ?thesis using q h by simp
qed

section \<open>Summary and day view\<close>

lemma sum_list_view:
  fixes F :: "real \<Rightarrow> real"
  assumes "\<forall>w\<in>set (getTimecardsByDate D cdh st).
             wd_timecards w = filter (\<lambda>tc. date tc = wd_date w) (filteredTimecards st)"
  shows "(\<Sum>w\<leftarrow>getTimecardsByDate D cdh st. F (wd_totalHours w))
           = (\<Sum>d\<in>date ` set (filteredTimecards st). F (cdh (filter (\<lambda>tc. date tc = d) (filteredTimecards st))))"
proof -
  let ?tcs = "filteredTimecards st"
  let ?days = "getTimecardsByDate D cdh st"
  let ?G = "\<lambda>d. F (cdh (filter (\<lambda>tc. date tc = d) ?tcs))"
  have "map (\<lambda>w. F (wd_totalHours w)) ?days = map (\<lambda>w. ?G (wd_date w)) ?days"
  proof (rule map_cong [OF refl])
    fix w assume w: "w \<in> set ?days"
    with assms have "wd_timecards w = filter (\<lambda>tc. date tc = wd_date w) ?tcs" by blast
    with wd_in_view(2) [OF w] show "F (wd_totalHours w) = ?G (wd_date w)" by simp
  qed
  also have "\<dots> = map ?G (map wd_date ?days)" by (simp add: comp_def)
  finally have m: "map (\<lambda>w. F (wd_totalHours w)) ?days = map ?G (map wd_date ?days)" .
  have "(\<Sum>w\<leftarrow>?days. F (wd_totalHours w)) = sum_list (map ?G (map wd_date ?days))"
    by (simp only: m)
  also have "\<dots> = sum ?G (set (map wd_date ?days))"
    using distinct_wd_dates by (rule sum_list_distinct_conv_sum_set)
  finally show ?thesis by (simp only: set_wd_dates)
qed

text \<open>
  What \<^verbatim>\<open>calculateSummary\<close> computes for any hours calculator: the bucket-wise sum, over
  the dates present, of \<open>classify\<close> of the hours of the day's events taken in their order
  of arrival.  It does not depend on the order of the days, and it is the sum of the
  breakdowns of the days of the day view when the events of each day arrive in the
  order in which the day view shows them.
\<close>

lemma summary_sum_of_days:
  "calculateSummary cdh tcs =
     \<lparr>totalHours = (\<Sum>d\<in>date ` set tcs. totalHours (classify (cdh (filter (\<lambda>tc. date tc = d) tcs)))),
      regularHours = (\<Sum>d\<in>date ` set tcs. regularHours (classify (cdh (filter (\<lambda>tc. date tc = d) tcs)))),
      overtimeHours = (\<Sum>d\<in>date ` set tcs. overtimeHours (classify (cdh (filter (\<lambda>tc. date tc = d) tcs)))),
      doubleTimeHours = (\<Sum>d\<in>date ` set tcs. doubleTimeHours (classify (cdh (filter (\<lambda>tc. date tc = d) tcs))))\<rparr>
   \<and> ((\<forall>d. filter (\<lambda>tc. date tc = d) tcs' = filter (\<lambda>tc. date tc = d) tcs)
        \<longrightarrow> calculateSummary cdh tcs' = calculateSummary cdh tcs)
   \<and> (date ` set tcs = {d1, d2} \<and> d1 \<noteq> d2
        \<and> cdh (filter (\<lambda>tc. date tc = d1) tcs) = 9 \<and> cdh (filter (\<lambda>tc. date tc = d2) tcs) = 13
      \<longrightarrow> calculateSummary cdh tcs
            = \<lparr>totalHours = 22, regularHours = 16, overtimeHours = 5, doubleTimeHours = 1\<rparr>)
   \<and> (filteredTimecards st = tcs
        \<and> (\<forall>w\<in>set (getTimecardsByDate D cdh st).
              wd_timecards w = filter (\<lambda>tc. date tc = wd_date w) tcs)
      \<longrightarrow> calculateSummary cdh tcs =
            \<lparr>totalHours = (\<Sum>w\<leftarrow>getTimecardsByDate D cdh st. totalHours (classify (wd_totalHours w))),
             regularHours = (\<Sum>w\<leftarrow>getTimecardsByDate D cdh st. regularHours (classify (wd_totalHours w))),
             overtimeHours = (\<Sum>w\<leftarrow>getTimecardsByDate D cdh st. overtimeHours (classify (wd_totalHours w))),
             doubleTimeHours = (\<Sum>w\<leftarrow>getTimecardsByDate D cdh st. doubleTimeHours (classify (wd_totalHours w)))\<rparr>)"
proof -
  have tot: "totalHours (classify h) = h" for h
    by (simp add: classify_def addDay_sel zeroSummary_def)
  have eq: "s = \<lparr>totalHours = totalHours s, regularHours = regularHours s,
                 overtimeHours = overtimeHours s, doubleTimeHours = doubleTimeHours s\<rparr>" for s :: summary
    by simp
  have 1: "calculateSummary cdh tcs =
     \<lparr>totalHours = (\<Sum>d\<in>date ` set tcs. totalHours (classify (cdh (filter (\<lambda>tc. date tc = d) tcs)))),
      regularHours = (\<Sum>d\<in>date ` set tcs. regularHours (classify (cdh (filter (\<lambda>tc. date tc = d) tcs)))),
      overtimeHours = (\<Sum>d\<in>date ` set tcs. overtimeHours (classify (cdh (filter (\<lambda>tc. date tc = d) tcs)))),
      doubleTimeHours = (\<Sum>d\<in>date ` set tcs. doubleTimeHours (classify (cdh (filter (\<lambda>tc. date tc = d) tcs))))\<rparr>"
    by (subst eq [of "calculateSummary cdh tcs"]) (simp only: calculateSummary_sums tot)
  have 2: "calculateSummary cdh tcs' = calculateSummary cdh tcs"
    if h: "\<forall>d. filter (\<lambda>tc. date tc = d) tcs' = filter (\<lambda>tc. date tc = d) tcs"
  proof -
    have "date ` set tcs' = date ` set tcs" using h by (rule same_days_same_dates)
    then show ?thesis
      by (subst eq [of "calculateSummary cdh tcs'"], subst eq [of "calculateSummary cdh tcs"])
         (simp add: calculateSummary_sums h)
  qed
  have 3: "calculateSummary cdh tcs
            = \<lparr>totalHours = 22, regularHours = 16, overtimeHours = 5, doubleTimeHours = 1\<rparr>"
    if "date ` set tcs = {d1, d2} \<and> d1 \<noteq> d2
        \<and> cdh (filter (\<lambda>tc. date tc = d1) tcs) = 9 \<and> cdh (filter (\<lambda>tc. date tc = d2) tcs) = 13"
    using that
    by (subst eq [of "calculateSummary cdh tcs"])
       (simp add: calculateSummary_sums classify_def addDay_sel zeroSummary_def)
  have 4: "calculateSummary cdh tcs =
            \<lparr>totalHours = (\<Sum>w\<leftarrow>getTimecardsByDate D cdh st. totalHours (classify (wd_totalHours w))),
             regularHours = (\<Sum>w\<leftarrow>getTimecardsByDate D cdh st. regularHours (classify (wd_totalHours w))),
             overtimeHours = (\<Sum>w\<leftarrow>getTimecardsByDate D cdh st. overtimeHours (classify (wd_totalHours w))),
             doubleTimeHours = (\<Sum>w\<leftarrow>getTimecardsByDate D cdh st. doubleTimeHours (classify (wd_totalHours w)))\<rparr>"
    if h: "filteredTimecards st = tcs
        \<and> (\<forall>w\<in>set (getTimecardsByDate D cdh st).
              wd_timecards w = filter (\<lambda>tc. date tc = wd_date w) tcs)"
  proof -
    from h have t: "filteredTimecards st = tcs" by simp
    from h have a: "\<forall>w\<in>set (getTimecardsByDate D cdh st).
             wd_timecards w = filter (\<lambda>tc. date tc = wd_date w) (filteredTimecards st)"
      by (simp add: t)
    have v: "(\<Sum>w\<leftarrow>getTimecardsByDate D cdh st. F (wd_totalHours w))
           = (\<Sum>d\<in>date ` set tcs. F (cdh (filter (\<lambda>tc. date tc = d) tcs)))" for F :: "real \<Rightarrow> real"
      using sum_list_view [OF a, of F] by (simp only: t)
    show ?thesis
      by (subst 1)
         (simp only: v [of "\<lambda>h. totalHours (classify h)"] v [of "\<lambda>h. regularHours (classify h)"]
            v [of "\<lambda>h. overtimeHours (classify h)"] v [of "\<lambda>h. doubleTimeHours (classify h)"])
  qed
  show ?thesis
    apply (intro conjI impI)
    subgoal by (rule 1)
    subgoal using 2 by blast
    subgoal using 3 by blast
    subgoal using 4 by blast
    done
qed


end
